theory Spec2Isabelle
  imports Main "HOL-Library.Log_Nat"
begin

section \<open>Python values used by \<open>main.py\<close>\<close>

subsection \<open>Exceptions\<close>

text \<open>
  Every exception the modelled code can see is a subclass of Python's \<open>Exception\<close>.
  \<open>ValueError\<close> carries its message, because the handler raises three different ones.
  \<open>ExternalError\<close> stands for whatever an external client (the exchange session, the
  Telegram client, Flask) raises on its own; \<open>FloodWaitError\<close>, \<open>PhoneCodeInvalidError\<close>
  and \<open>SessionPasswordNeededError\<close> are the Telethon errors that \<open>telegram_login\<close> names.
  Exception chaining (\<open>raise ... from e\<close>) only changes the traceback text and is dropped.
\<close>

datatype exn =
    ValueError string
  | KeyError string
  | TypeError
  | AttributeError
  | ZeroDivisionError
  | OverflowError
  | FloodWaitError nat
  | PhoneCodeInvalidError
  | SessionPasswordNeededError
  | ExternalError string

subsection \<open>Floats: IEEE 754 binary64, as CPython's \<open>float\<close>\<close>

text \<open>
  A Python float is a finite double (kept as the rational it denotes), an infinity or a
  NaN. The two zeros are one value here: the code never observes the sign of a zero (both
  are falsy, neither is \<open>> 0\<close>, and dividing by either raises).
\<close>

datatype pyfloat = Fin rat | PInf | NInf | NaN

text \<open>\<open>ilog2 a\<close> is the binary exponent of a positive rational: \<open>2^e \<le> a < 2^(e+1)\<close>.\<close>

definition ilog2 :: "rat \<Rightarrow> int" where
  "ilog2 a = (case quotient_of a of (n, d) \<Rightarrow>
     let l = bitlen n - bitlen d in if 2 powi l \<le> a then l else l - 1)"

text \<open>Rounding to the nearest integer, ties to the even one.\<close>

definition round_half_even :: "rat \<Rightarrow> int" where
  "round_half_even x = (let f = \<lfloor>x\<rfloor>; d = x - of_int f in
     if d < 1/2 then f else if 1/2 < d then f + 1 else if even f then f else f + 1)"

text \<open>
  The double nearest to an exact result (round to nearest, ties to even): 53 significant
  bits, so the unit in the last place of a number of exponent \<open>e\<close> is \<open>2^(e-52)\<close>;
  below \<open>2^-1022\<close> the spacing stays \<open>2^-1074\<close> (subnormals, down to zero); a result that
  rounds to \<open>2^1024\<close> or more is an infinity.
\<close>

definition round_to_double :: "rat \<Rightarrow> pyfloat" where
  "round_to_double q = (if q = 0 then Fin 0 else
     let a = \<bar>q\<bar>; e = max (ilog2 a) (-1022); u = 2 powi (e - 52);
         m = round_half_even (a / u)
     in if 1023 < e \<or> (e = 1023 \<and> m = 2 ^ 53) then (if 0 < q then PInf else NInf)
        else Fin (if 0 < q then of_int m * u else - (of_int m * u)))"

text \<open>\<open>x / y\<close> on floats: Python raises on a zero divisor, otherwise IEEE division.\<close>

fun float_truediv :: "pyfloat \<Rightarrow> pyfloat \<Rightarrow> exn + pyfloat" where
  "float_truediv x (Fin y) =
     (if y = 0 then Inl ZeroDivisionError
      else case x of
        Fin a \<Rightarrow> Inr (round_to_double (a / y))
      | PInf \<Rightarrow> Inr (if 0 < y then PInf else NInf)
      | NInf \<Rightarrow> Inr (if 0 < y then NInf else PInf)
      | NaN \<Rightarrow> Inr NaN)"
| "float_truediv x NaN = Inr NaN"
| "float_truediv (Fin a) y = Inr (Fin 0)"
| "float_truediv x y = Inr NaN"

text \<open>\<open>x * y\<close> on floats.\<close>

fun float_mul :: "pyfloat \<Rightarrow> pyfloat \<Rightarrow> pyfloat" where
  "float_mul NaN y = NaN"
| "float_mul x NaN = NaN"
| "float_mul (Fin a) (Fin b) = round_to_double (a * b)"
| "float_mul (Fin a) PInf = (if a = 0 then NaN else if 0 < a then PInf else NInf)"
| "float_mul (Fin a) NInf = (if a = 0 then NaN else if 0 < a then NInf else PInf)"
| "float_mul PInf (Fin b) = (if b = 0 then NaN else if 0 < b then PInf else NInf)"
| "float_mul NInf (Fin b) = (if b = 0 then NaN else if 0 < b then NInf else PInf)"
| "float_mul PInf PInf = PInf"
| "float_mul PInf NInf = NInf"
| "float_mul NInf PInf = NInf"
| "float_mul NInf NInf = PInf"

text \<open>\<open>math.floor\<close>: an \<open>int\<close>; raises on NaN (\<open>ValueError\<close>) and on an infinity.\<close>

fun math_floor :: "pyfloat \<Rightarrow> exn + int" where
  "math_floor (Fin a) = Inr \<lfloor>a\<rfloor>"
| "math_floor NaN = Inl (ValueError ''cannot convert float NaN to integer'')"
| "math_floor x = Inl OverflowError"

text \<open>\<open>float(i)\<close> for an \<open>int\<close>: correctly rounded; too large an \<open>int\<close> raises.\<close>

definition float_of_int :: "int \<Rightarrow> exn + pyfloat" where
  "float_of_int i = (case round_to_double (of_int i) of
     Fin a \<Rightarrow> Inr (Fin a) | _ \<Rightarrow> Inl OverflowError)"

text \<open>\<open>i * y\<close> with an \<open>int\<close> on the left: the \<open>int\<close> is converted first.\<close>

definition int_mul_float :: "int \<Rightarrow> pyfloat \<Rightarrow> exn + pyfloat" where
  "int_mul_float i y = (case float_of_int i of
     Inl e \<Rightarrow> Inl e | Inr x \<Rightarrow> Inr (float_mul x y))"

text \<open>\<open>x > 0\<close> and the truth value of a float (\<open>NaN\<close> is truthy, and not \<open>> 0\<close>).\<close>

fun float_gt_zero :: "pyfloat \<Rightarrow> bool" where
  "float_gt_zero (Fin a) = (0 < a)"
| "float_gt_zero PInf = True"
| "float_gt_zero x = False"

fun float_bool :: "pyfloat \<Rightarrow> bool" where
  "float_bool (Fin a) = (a \<noteq> 0)"
| "float_bool x = True"

fun float_neg :: "pyfloat \<Rightarrow> pyfloat" where
  "float_neg (Fin a) = Fin (- a)"
| "float_neg PInf = NInf"
| "float_neg NInf = PInf"
| "float_neg NaN = NaN"

subsection \<open>Strings\<close>

text \<open>
  A \<open>str\<close> is a list of characters; a character is a code point up to U+00FF. The
  whitespace that \<open>str.strip()\<close> removes is Python's \<open>str.isspace\<close> on that range.
\<close>

definition py_isspace :: "char \<Rightarrow> bool" where
  "py_isspace c = (let n = (of_char c :: int) in
     (9 \<le> n \<and> n \<le> 13) \<or> (28 \<le> n \<and> n \<le> 32) \<or> n = 133 \<or> n = 160)"

definition strip_where :: "(char \<Rightarrow> bool) \<Rightarrow> string \<Rightarrow> string" where
  "strip_where P s = rev (dropWhile P (rev (dropWhile P s)))"

text \<open>\<open>s.strip()\<close> and \<open>s.strip(chars)\<close>.\<close>

definition str_strip :: "string \<Rightarrow> string" where
  "str_strip s = strip_where py_isspace s"

definition str_strip_chars :: "string \<Rightarrow> string \<Rightarrow> string" where
  "str_strip_chars chars s = strip_where (\<lambda>c. c \<in> set chars) s"

text \<open>\<open>s.split(sep)\<close> for a separator of one character: never an empty list.\<close>

fun str_split :: "char \<Rightarrow> string \<Rightarrow> string list" where
  "str_split sep [] = [[]]"
| "str_split sep (c # cs) =
     (if c = sep then [] # str_split sep cs
      else case str_split sep cs of
        w # ws \<Rightarrow> (c # w) # ws
      | [] \<Rightarrow> [[c]])"

definition startswith :: "string \<Rightarrow> string \<Rightarrow> bool" where
  "startswith s p = (take (length p) s = p)"

text \<open>
  \<open>s.replace(pat, "")\<close> for a non-empty \<open>pat\<close>: every occurrence goes, scanning from
  the left without overlap.
\<close>

fun str_remove :: "string \<Rightarrow> string \<Rightarrow> string" where
  "str_remove pat [] = []"
| "str_remove pat (c # cs) =
     (if pat \<noteq> [] \<and> take (length pat) (c # cs) = pat
      then str_remove pat (drop (length pat - 1) cs)
      else c # str_remove pat cs)"

subsection \<open>\<open>float(str)\<close>\<close>

definition is_digit :: "char \<Rightarrow> bool" where
  "is_digit c = (let n = (of_char c :: int) in 48 \<le> n \<and> n \<le> 57)"

definition digit_val :: "char \<Rightarrow> int" where
  "digit_val c = of_char c - 48"

definition digits_val :: "string \<Rightarrow> int" where
  "digits_val ds = foldl (\<lambda>acc d. 10 * acc + digit_val d) 0 ds"

definition ascii_lower :: "char \<Rightarrow> char" where
  "ascii_lower c = (let n = (of_char c :: int) in
     if 65 \<le> n \<and> n \<le> 90 then char_of (n + 32) else c)"

text \<open>
  Underscores (PEP 515): each one must stand between two digits; they are then removed.
  The first argument is the previous character.
\<close>

fun remove_underscores :: "char option \<Rightarrow> string \<Rightarrow> string option" where
  "remove_underscores prev [] = (if prev = Some CHR ''_'' then None else Some [])"
| "remove_underscores prev (c # cs) =
     (if c = CHR ''_'' then
        (case prev of
           Some p \<Rightarrow> if is_digit p then remove_underscores (Some c) cs else None
         | None \<Rightarrow> None)
      else if prev = Some CHR ''_'' \<and> \<not> is_digit c then None
      else map_option ((#) c) (remove_underscores (Some c) cs))"

text \<open>
  An unsigned decimal literal: digits, an optional point and digits (at least one digit in
  all), an optional exponent \<open>e\<close> or \<open>E\<close> with an optional sign and at least one digit; the
  whole string must be used up. The value is rounded once, from the exact decimal.
\<close>

definition parse_exponent :: "string \<Rightarrow> int option" where
  "parse_exponent s =
     (case s of
        [] \<Rightarrow> Some 0
      | c # r \<Rightarrow>
          if c = CHR ''e'' \<or> c = CHR ''E'' then
            (let (neg, ds) = (case r of
                                [] \<Rightarrow> (False, r)
                              | d # r' \<Rightarrow> if d = CHR ''-'' then (True, r')
                                         else if d = CHR ''+'' then (False, r')
                                         else (False, r))
             in if ds \<noteq> [] \<and> list_all is_digit ds
                then Some (if neg then - digits_val ds else digits_val ds)
                else None)
          else None)"

definition parse_decimal :: "string \<Rightarrow> pyfloat option" where
  "parse_decimal s =
     (let ip = takeWhile is_digit s; r1 = dropWhile is_digit s;
          (fp, r2) = (case r1 of
                        [] \<Rightarrow> ([], r1)
                      | c # r \<Rightarrow> if c = CHR ''.''
                                 then (takeWhile is_digit r, dropWhile is_digit r)
                                 else ([], r1))
      in if ip = [] \<and> fp = [] then None
         else case parse_exponent r2 of
           None \<Rightarrow> None
         | Some ex \<Rightarrow>
             Some (round_to_double
               (of_int (digits_val (ip @ fp)) * 10 powi (ex - int (length fp)))))"

definition parse_unsigned :: "string \<Rightarrow> pyfloat option" where
  "parse_unsigned s =
     (let l = map ascii_lower s in
      if l = ''inf'' \<or> l = ''infinity'' then Some PInf
      else if l = ''nan'' then Some NaN
      else parse_decimal s)"

definition parse_float :: "string \<Rightarrow> pyfloat option" where
  "parse_float s =
     (case s of
        [] \<Rightarrow> None
      | c # r \<Rightarrow> if c = CHR ''-'' then map_option float_neg (parse_unsigned r)
                 else if c = CHR ''+'' then parse_unsigned r
                 else parse_unsigned s)"

text \<open>
  \<open>float(s)\<close> for a \<open>str\<close>: \<open>ValueError\<close> when the text is not a float literal.
  The whitespace it drops at both ends is not quite that of \<open>str.strip()\<close>: the four
  separators U+001C to U+001F stay, and make the text invalid.
\<close>

definition float_isspace :: "char \<Rightarrow> bool" where
  "float_isspace c = (let n = (of_char c :: int) in
     (9 \<le> n \<and> n \<le> 13) \<or> n = 32 \<or> n = 133 \<or> n = 160)"

definition float_of_str :: "string \<Rightarrow> exn + pyfloat" where
  "float_of_str s =
     (case remove_underscores None (strip_where float_isspace s) of
        None \<Rightarrow> Inl (ValueError ''could not convert string to float'')
      | Some t \<Rightarrow>
          (case parse_float t of
             None \<Rightarrow> Inl (ValueError ''could not convert string to float'')
           | Some x \<Rightarrow> Inr x))"

subsection \<open>Decoded JSON\<close>

text \<open>
  What the exchange client and Flask hand to the code: decoded JSON. A \<open>dict\<close> is an
  association list read by its first entry for a key.
\<close>

datatype json =
    JNone
  | JBool bool
  | JInt int
  | JFloat pyfloat
  | JStr string
  | JList "json list"
  | JDict "(string \<times> json) list"

text \<open>Sequencing of steps that may raise.\<close>

definition and_then :: "exn + 'a \<Rightarrow> ('a \<Rightarrow> exn + 'b) \<Rightarrow> exn + 'b" where
  "and_then m f = (case m of Inl e \<Rightarrow> Inl e | Inr x \<Rightarrow> f x)"

text \<open>\<open>obj[key]\<close> with a \<open>str\<close> key.\<close>

fun py_getitem :: "json \<Rightarrow> string \<Rightarrow> exn + json" where
  "py_getitem (JDict kvs) k = (case map_of kvs k of None \<Rightarrow> Inl (KeyError k) | Some v \<Rightarrow> Inr v)"
| "py_getitem obj k = Inl TypeError"

text \<open>\<open>obj.get(key, default)\<close>: only a \<open>dict\<close> has it.\<close>

fun py_get :: "json \<Rightarrow> string \<Rightarrow> json \<Rightarrow> exn + json" where
  "py_get (JDict kvs) k dflt = (case map_of kvs k of None \<Rightarrow> Inr dflt | Some v \<Rightarrow> Inr v)"
| "py_get obj k dflt = Inl AttributeError"

text \<open>Truth value.\<close>

fun py_bool :: "json \<Rightarrow> bool" where
  "py_bool JNone = False"
| "py_bool (JBool b) = b"
| "py_bool (JInt i) = (i \<noteq> 0)"
| "py_bool (JFloat x) = float_bool x"
| "py_bool (JStr s) = (s \<noteq> [])"
| "py_bool (JList xs) = (xs \<noteq> [])"
| "py_bool (JDict kvs) = (kvs \<noteq> [])"

text \<open>\<open>v == s\<close> for a \<open>str\<close> \<open>s\<close>, and \<open>v == 0\<close> (numbers compare by value, \<open>False == 0\<close>).\<close>

fun py_eq_str :: "json \<Rightarrow> string \<Rightarrow> bool" where
  "py_eq_str (JStr t) s = (t = s)"
| "py_eq_str v s = False"

fun py_eq_zero :: "json \<Rightarrow> bool" where
  "py_eq_zero (JInt i) = (i = 0)"
| "py_eq_zero (JBool b) = (\<not> b)"
| "py_eq_zero (JFloat x) = (x = Fin 0)"
| "py_eq_zero v = False"

text \<open>
  Iteration: a \<open>list\<close> gives its elements, a \<open>dict\<close> its keys, a \<open>str\<close> its characters;
  nothing else is iterable.
\<close>

fun py_iter :: "json \<Rightarrow> exn + json list" where
  "py_iter (JList xs) = Inr xs"
| "py_iter (JDict kvs) = Inr (map JStr (remdups (map fst kvs)))"
| "py_iter (JStr s) = Inr (map (\<lambda>c. JStr [c]) s)"
| "py_iter v = Inl TypeError"

text \<open>\<open>float(v)\<close>.\<close>

fun py_float :: "json \<Rightarrow> exn + pyfloat" where
  "py_float (JStr s) = float_of_str s"
| "py_float (JInt i) = float_of_int i"
| "py_float (JFloat x) = Inr x"
| "py_float (JBool b) = Inr (Fin (if b then 1 else 0))"
| "py_float v = Inl TypeError"

section \<open>The exchange session and what a handler run does\<close>

record order_params =
  op_category :: string
  op_symbol :: string
  op_side :: string
  op_order_type :: string
  op_qty :: pyfloat
  op_price :: pyfloat
  op_time_in_force :: string
  op_stopLoss :: pyfloat
  op_takeProfit :: pyfloat

text \<open>
  The pybit session, as the handler sees it during one message: what each of its three
  requests answers, or raises.
\<close>

record exchange =
  get_instruments_info :: "exn + json"
  get_wallet_balance :: "exn + json"
  place_order :: "order_params \<Rightarrow> exn + json"

text \<open>The values \<open>format_trade_details\<close> lays out (the layout itself is not modelled).\<close>

record trade_details =
  td_symbol :: string
  td_price :: pyfloat
  td_stop_loss :: pyfloat
  td_take_profit :: pyfloat
  td_quantity :: pyfloat
  td_order_id :: json
  td_status :: json
  td_timestamp :: json
  td_equity :: pyfloat
  td_wallet_balance :: pyfloat

text \<open>
  Log and console lines, by what they report rather than by their text.
\<close>

datatype message =
    BotResponseReceived string
  | StepSizeError exn
  | ExtractedValues string pyfloat pyfloat pyfloat
  | FullBalanceResponse json
  | UsdtBalance pyfloat pyfloat
  | WalletError exn
  | PlacingOrder order_params
  | TradeDetails trade_details
  | OrderRejected json
  | OrderException exn
  | InsufficientBalance
  | HandlerError exn

datatype level = DEBUG | INFO | ERROR

datatype request =
    GetInstrumentsInfo string
  | GetWalletBalance string
  | PlaceOrder order_params

text \<open>What a run does, in order: requests to the exchange, log records, console lines.\<close>

datatype event = Call request | Log level message | Print message

section \<open>The handler of a bot message\<close>

subsection \<open>\<open>get_step_size\<close>\<close>

text \<open>The generator inside \<open>next(..., None)\<close>: the first entry whose symbol matches.\<close>

fun find_symbol :: "json list \<Rightarrow> string \<Rightarrow> exn + json option" where
  "find_symbol [] symb = Inr None"
| "find_symbol (x # xs) symb =
     and_then (py_getitem x ''symbol'')
       (\<lambda>v. if py_eq_str v symb then Inr (Some x) else find_symbol xs symb)"

definition step_size_of :: "json \<Rightarrow> string \<Rightarrow> exn + pyfloat" where
  "step_size_of instruments symb =
     and_then (py_getitem instruments ''result'') (\<lambda>result.
     and_then (py_getitem result ''list'') (\<lambda>linear_list.
     and_then (py_iter linear_list) (\<lambda>xs.
     and_then (find_symbol xs symb) (\<lambda>symbol_info.
       case symbol_info of
         None \<Rightarrow> Inl (ValueError (''Symbol '' @ symb @ '' not found in instruments''))
       | Some info \<Rightarrow>
           if py_bool info then
             and_then (py_getitem info ''lotSizeFilter'') (\<lambda>lot.
             and_then (py_getitem lot ''qtyStep'') py_float)
           else Inl (ValueError (''Symbol '' @ symb @ '' not found in instruments''))))))"

text \<open>Any exception is logged and raised again.\<close>

definition get_step_size :: "exchange \<Rightarrow> string \<Rightarrow> event list \<times> (exn + pyfloat)" where
  "get_step_size session symb =
     (case and_then (get_instruments_info session) (\<lambda>instruments. step_size_of instruments symb) of
        Inl e \<Rightarrow> ([Call (GetInstrumentsInfo ''linear''), Log ERROR (StepSizeError e)], Inl e)
      | Inr step \<Rightarrow> ([Call (GetInstrumentsInfo ''linear'')], Inr step))"

subsection \<open>\<open>format_trade_details\<close>\<close>

definition format_trade_details ::
  "string \<Rightarrow> pyfloat \<Rightarrow> pyfloat \<Rightarrow> pyfloat \<Rightarrow> pyfloat \<Rightarrow> json \<Rightarrow> pyfloat \<Rightarrow> pyfloat
     \<Rightarrow> exn + trade_details" where
  "format_trade_details symb pr sl tp q order_response eqt wb =
     and_then (py_get order_response ''result'' (JDict [])) (\<lambda>result.
     and_then (py_get result ''orderId'' (JStr ''N/A'')) (\<lambda>order_id.
     and_then (py_get order_response ''retMsg'' (JStr ''N/A'')) (\<lambda>ret_msg.
     and_then (py_get order_response ''time'' (JStr ''N/A'')) (\<lambda>timestamp.
       Inr \<lparr>td_symbol = symb, td_price = pr, td_stop_loss = sl, td_take_profit = tp,
            td_quantity = q, td_order_id = order_id, td_status = ret_msg,
            td_timestamp = timestamp, td_equity = eqt, td_wallet_balance = wb\<rparr>))))"

subsection \<open>Reading the four fields of the message\<close>

text \<open>The four variables of the loop over the lines; \<open>None\<close> until a line sets them.\<close>

record fields =
  f_symbol :: "string option"
  f_price :: "pyfloat option"
  f_stop_loss_price :: "pyfloat option"
  f_take_profit_price :: "pyfloat option"

definition no_fields :: fields where
  "no_fields = \<lparr>f_symbol = None, f_price = None, f_stop_loss_price = None,
                 f_take_profit_price = None\<rparr>"

text \<open>\<open>float(part.replace(label, "").strip())\<close>.\<close>

definition number_after :: "string \<Rightarrow> string \<Rightarrow> exn + pyfloat" where
  "number_after label part = float_of_str (str_strip (str_remove label part))"

text \<open>One turn of the loop: the \<open>if\<close>/\<open>elif\<close> chain on the start of the line.\<close>

definition read_part :: "string \<Rightarrow> fields \<Rightarrow> exn + fields" where
  "read_part part fs =
     (if startswith part ''Symbol:'' then
        Inr (fs\<lparr>f_symbol := Some (str_strip (str_remove ''Symbol:'' part))\<rparr>)
      else if startswith part ''Price:'' then
        and_then (number_after ''Price:'' part) (\<lambda>x. Inr (fs\<lparr>f_price := Some x\<rparr>))
      else if startswith part ''Stop Loss:'' then
        and_then (number_after ''Stop Loss:'' part) (\<lambda>x. Inr (fs\<lparr>f_stop_loss_price := Some x\<rparr>))
      else if startswith part ''Take Profit:'' then
        and_then (number_after ''Take Profit:'' part) (\<lambda>x. Inr (fs\<lparr>f_take_profit_price := Some x\<rparr>))
      else Inr fs)"

fun read_parts :: "string list \<Rightarrow> fields \<Rightarrow> exn + fields" where
  "read_parts [] fs = Inr fs"
| "read_parts (part # parts) fs = and_then (read_part part fs) (read_parts parts)"

text \<open>
  \<open>all([symbol, price, stop_loss_price, take_profit_price])\<close>: each must be there and
  truthy, so an empty symbol and a zero number count as missing.
\<close>

definition all_fields :: "fields \<Rightarrow> (string \<times> pyfloat \<times> pyfloat \<times> pyfloat) option" where
  "all_fields fs =
     (case (f_symbol fs, f_price fs, f_stop_loss_price fs, f_take_profit_price fs) of
        (Some symb, Some pr, Some sl, Some tp) \<Rightarrow>
          if symb \<noteq> [] \<and> float_bool pr \<and> float_bool sl \<and> float_bool tp
          then Some (symb, pr, sl, tp) else None
      | _ \<Rightarrow> None)"

definition parse_signal :: "string \<Rightarrow> exn + (string \<times> pyfloat \<times> pyfloat \<times> pyfloat)" where
  "parse_signal bot_message =
     and_then (read_parts (str_split CHR 0x0A bot_message) no_fields) (\<lambda>fs.
       case all_fields fs of
         None \<Rightarrow> Inl (ValueError ''Invalid message format received from the bot'')
       | Some sg \<Rightarrow> Inr sg)"

subsection \<open>The USDT entry of the wallet response\<close>

text \<open>The inner loop over a list of coins: the first USDT coin replaces \<open>usdt_data\<close>.\<close>

fun find_usdt :: "json option \<Rightarrow> json list \<Rightarrow> exn + json option" where
  "find_usdt usdt_data [] = Inr usdt_data"
| "find_usdt usdt_data (coin # coins) =
     and_then (py_get coin ''coin'' JNone)
       (\<lambda>v. if py_eq_str v ''USDT'' then Inr (Some coin) else find_usdt usdt_data coins)"

text \<open>What one account does to \<open>usdt_data\<close>: its coins are a list, one record, or neither.\<close>

definition scan_account :: "json option \<Rightarrow> json \<Rightarrow> exn + json option" where
  "scan_account usdt_data account =
     and_then (py_get account ''coin'' JNone) (\<lambda>coins.
       case coins of
         JList cs \<Rightarrow> find_usdt usdt_data cs
       | JDict kvs \<Rightarrow>
           and_then (py_get coins ''coin'' JNone)
             (\<lambda>v. Inr (if py_eq_str v ''USDT'' then Some coins else usdt_data))
       | _ \<Rightarrow> Inr usdt_data)"

definition opt_bool :: "json option \<Rightarrow> bool" where
  "opt_bool v = (case v of None \<Rightarrow> False | Some j \<Rightarrow> py_bool j)"

text \<open>The loop over the accounts, left as soon as \<open>usdt_data\<close> is truthy.\<close>

fun scan_accounts :: "json option \<Rightarrow> json list \<Rightarrow> exn + json option" where
  "scan_accounts usdt_data [] = Inr usdt_data"
| "scan_accounts usdt_data (account # accounts) =
     and_then (scan_account usdt_data account)
       (\<lambda>u. if opt_bool u then Inr u else scan_accounts u accounts)"

text \<open>\<open>float(usdt_data.get("equity", 0))\<close> and \<open>float(usdt_data.get("walletBalance", 0))\<close>.\<close>

definition balances_of :: "json \<Rightarrow> exn + (pyfloat \<times> pyfloat)" where
  "balances_of usdt =
     and_then (and_then (py_get usdt ''equity'' (JInt 0)) py_float) (\<lambda>equity.
     and_then (and_then (py_get usdt ''walletBalance'' (JInt 0)) py_float)
       (\<lambda>wallet_balance. Inr (equity, wallet_balance)))"

definition usdt_balance :: "json \<Rightarrow> exn + (pyfloat \<times> pyfloat)" where
  "usdt_balance account_balance =
     and_then (py_getitem account_balance ''result'') (\<lambda>result.
     and_then (py_getitem result ''list'') (\<lambda>wallet_list.
       case wallet_list of
         JList accounts \<Rightarrow>
           if accounts = [] then Inl (ValueError ''Wallet list is empty or not a valid list'')
           else
             and_then (scan_accounts None accounts) (\<lambda>usdt_data.
               case usdt_data of
                 None \<Rightarrow> Inl (ValueError ''USDT balance not found in the response'')
               | Some usdt \<Rightarrow>
                   if py_bool usdt then balances_of usdt
                   else Inl (ValueError ''USDT balance not found in the response''))
       | _ \<Rightarrow> Inl (ValueError ''Wallet list is empty or not a valid list'')))"

text \<open>
  The inner \<open>try\<close>: whatever goes wrong is logged and becomes the one
  \<open>ValueError("Failed to parse wallet balance")\<close>.
\<close>

definition read_wallet :: "json \<Rightarrow> event list \<times> (exn + (pyfloat \<times> pyfloat))" where
  "read_wallet account_balance =
     (case usdt_balance account_balance of
        Inl e \<Rightarrow> ([Log ERROR (WalletError e)], Inl (ValueError ''Failed to parse wallet balance''))
      | Inr (equity, wallet_balance) \<Rightarrow>
          ([Log INFO (UsdtBalance equity wallet_balance)], Inr (equity, wallet_balance)))"

subsection \<open>Sizing and placing the order\<close>

text \<open>
  \<open>max_qty = wallet_balance / price\<close>, then
  \<open>max_qty = math.floor(max_qty / step_size) * step_size\<close>, in float arithmetic.
\<close>

definition position_size :: "pyfloat \<Rightarrow> pyfloat \<Rightarrow> pyfloat \<Rightarrow> exn + pyfloat" where
  "position_size wallet_balance pri step_size =
     and_then (float_truediv wallet_balance pri) (\<lambda>max_qty.
     and_then (float_truediv max_qty step_size) (\<lambda>steps.
     and_then (math_floor steps) (\<lambda>n. int_mul_float n step_size)))"

text \<open>What the inner \<open>try\<close> around \<open>place_order\<close> reports: a message and its log level.\<close>

definition order_outcome ::
  "exchange \<Rightarrow> order_params \<Rightarrow> pyfloat \<Rightarrow> pyfloat \<Rightarrow> exn + (level \<times> message)" where
  "order_outcome session params equity wallet_balance =
     and_then (place_order session params) (\<lambda>order.
     and_then (py_getitem order ''retCode'') (\<lambda>ret_code.
       if py_eq_zero ret_code then
         and_then (format_trade_details (op_symbol params) (op_price params) (op_stopLoss params)
                     (op_takeProfit params) (op_qty params) order equity wallet_balance)
           (\<lambda>details. Inr (INFO, TradeDetails details))
       else
         and_then (py_getitem order ''retMsg'') (\<lambda>ret_msg. Inr (ERROR, OrderRejected ret_msg))))"

text \<open>The branch on \<open>max_qty > 0\<close>.\<close>

definition submit_order ::
  "exchange \<Rightarrow> string \<Rightarrow> pyfloat \<Rightarrow> pyfloat \<Rightarrow> pyfloat \<Rightarrow> pyfloat \<Rightarrow> pyfloat \<Rightarrow> pyfloat
     \<Rightarrow> event list" where
  "submit_order session symb pri sl tp max_qty equity wallet_balance =
     (if float_gt_zero max_qty then
        (let params = \<lparr>op_category = ''linear'', op_symbol = symb, op_side = ''Buy'',
                        op_order_type = ''Limit'', op_qty = max_qty, op_price = pri,
                        op_time_in_force = ''GTC'', op_stopLoss = sl, op_takeProfit = tp\<rparr>
         in [Log INFO (PlacingOrder params), Call (PlaceOrder params)] @
            (case order_outcome session params equity wallet_balance of
               Inl e \<Rightarrow> [Log ERROR (OrderException e), Print (OrderException e)]
             | Inr (lvl, msg) \<Rightarrow> [Log lvl msg, Print msg]))
      else [Log ERROR InsufficientBalance, Print InsufficientBalance])"

subsection \<open>\<open>handle_bot_response\<close>\<close>

text \<open>The body of the outer \<open>try\<close>: what it does, and the exception it ends with, if any.\<close>

definition handle_body :: "exchange \<Rightarrow> string \<Rightarrow> event list \<times> (exn + unit)" where
  "handle_body session bot_message =
     (case parse_signal bot_message of
        Inl e \<Rightarrow> ([], Inl e)
      | Inr (symb, pri, sl, tp) \<Rightarrow>
          (let ev1 = [Log INFO (ExtractedValues symb pri sl tp),
                      Print (ExtractedValues symb pri sl tp)]
           in case get_step_size session symb of
                (ev2, Inl e) \<Rightarrow> (ev1 @ ev2, Inl e)
              | (ev2, Inr step_size) \<Rightarrow>
                  (case get_wallet_balance session of
                     Inl e \<Rightarrow> (ev1 @ ev2 @ [Call (GetWalletBalance ''UNIFIED'')], Inl e)
                   | Inr account_balance \<Rightarrow>
                       (let ev3 = [Call (GetWalletBalance ''UNIFIED''),
                                   Log DEBUG (FullBalanceResponse account_balance)]
                        in case read_wallet account_balance of
                             (ev4, Inl e) \<Rightarrow> (ev1 @ ev2 @ ev3 @ ev4, Inl e)
                           | (ev4, Inr (equity, wallet_balance)) \<Rightarrow>
                               (case position_size wallet_balance pri step_size of
                                  Inl e \<Rightarrow> (ev1 @ ev2 @ ev3 @ ev4, Inl e)
                                | Inr max_qty \<Rightarrow>
                                    (ev1 @ ev2 @ ev3 @ ev4 @
                                       submit_order session symb pri sl tp max_qty
                                         equity wallet_balance,
                                     Inr ()))))))"

text \<open>
  The handler: the message text is cleaned, the body runs, and \<open>except Exception\<close> turns
  an exception into a log record and a console line. The second component is how the
  coroutine ends: \<open>Inr ()\<close> when it returns, \<open>Inl e\<close> when \<open>e\<close> leaves it.
\<close>

definition handle_bot_response :: "exchange \<Rightarrow> string \<Rightarrow> event list \<times> (exn + unit)" where
  "handle_bot_response session raw_text =
     (let bot_message = str_strip (str_strip_chars [CHR 0x22] raw_text)
      in case handle_body session bot_message of
           (evs, Inl e) \<Rightarrow> (evs @ [Log ERROR (HandlerError e), Print (HandlerError e)], Inr ())
         | (evs, Inr u) \<Rightarrow> (evs, Inr u))"

definition bot_message_handler :: "exchange \<Rightarrow> string \<Rightarrow> event list \<times> (exn + unit)" where
  "bot_message_handler session raw_text =
     (case handle_bot_response session raw_text of
        (evs, r) \<Rightarrow> (Print (BotResponseReceived raw_text) # evs, r))"

text \<open>The requests a run sent to the exchange.\<close>

fun requests :: "event list \<Rightarrow> request list" where
  "requests [] = []"
| "requests (Call r # evs) = r # requests evs"
| "requests (ev # evs) = requests evs"

text \<open>
  The client's dispatch of new messages to the handler, one after the other in arrival
  order; each message comes with what the exchange would answer at that time. An exception
  leaving a handler is taken as the end of listening.
\<close>

fun listen :: "(exchange \<times> string) list \<Rightarrow> event list \<times> (exn + unit)" where
  "listen [] = ([], Inr ())"
| "listen ((session, raw_text) # later) =
     (case bot_message_handler session raw_text of
        (evs, Inl e) \<Rightarrow> (evs, Inl e)
      | (evs, Inr u) \<Rightarrow> (case listen later of (evs', r) \<Rightarrow> (evs @ evs', r)))"

section \<open>The Telegram login and the OTP endpoint\<close>

text \<open>
  The three module-level variables: the pending OTP (\<open>None\<close> at first), the
  \<open>asyncio.Event\<close> (set or not) and the flag that a code request has been sent.
\<close>

record globals =
  otp_received :: json
  login_event :: bool
  otp_request_sent :: bool

definition initial_globals :: globals where
  "initial_globals = \<lparr>otp_received = JNone, login_event = False, otp_request_sent = False\<rparr>"

datatype auth_message =
    InvalidOtpRequest
  | OtpReceived json
  | OtpEndpointError exn
  | Connecting
  | CheckingAuthorized
  | InitiatingLogin
  | OtpRequestSent
  | TooManyRequests nat
  | SendCodeError exn
  | WaitingForOtp
  | LoginSuccessful
  | InvalidOtp json
  | TwoFactorEnabled
  | LoginError exn
  | OtpNotReceived
  | AlreadyAuthorized
  | UnexpectedLoginError exn

datatype telegram_request = Connect | IsUserAuthorized | SendCodeRequest | SignIn json

datatype auth_event =
    TCall telegram_request
  | ALog level auth_message
  | APrint auth_message

subsection \<open>\<open>receive_otp\<close>\<close>

text \<open>\<open>s in data\<close> for a \<open>str\<close> \<open>s\<close>: a key of a \<open>dict\<close>, an element of a \<open>list\<close>, a substring.\<close>

fun is_substring :: "string \<Rightarrow> string \<Rightarrow> bool" where
  "is_substring p [] = (p = [])"
| "is_substring p (c # cs) = (take (length p) (c # cs) = p \<or> is_substring p cs)"

fun py_contains :: "json \<Rightarrow> string \<Rightarrow> exn + bool" where
  "py_contains (JDict kvs) k = Inr (k \<in> set (map fst kvs))"
| "py_contains (JList xs) k = Inr (JStr k \<in> set xs)"
| "py_contains (JStr s) k = Inr (is_substring k s)"
| "py_contains v k = Inl TypeError"

text \<open>The answer of the endpoint, with its HTTP status.\<close>

datatype otp_reply = OtpAccepted json | OtpRequired | OtpFailed exn

fun status_code :: "otp_reply \<Rightarrow> nat" where
  "status_code (OtpAccepted otp) = 200"
| "status_code OtpRequired = 400"
| "status_code (OtpFailed e) = 500"

text \<open>
  The argument is what \<open>request.get_json()\<close> gives: the decoded body, or an exception.
  Nothing but the body is looked at: the OTP is stored and the event set whatever the
  login is doing.
\<close>

definition receive_otp :: "exn + json \<Rightarrow> globals \<Rightarrow> otp_reply \<times> auth_event list \<times> globals" where
  "receive_otp body g =
     (case body of
        Inl e \<Rightarrow> (OtpFailed e, [ALog ERROR (OtpEndpointError e), APrint (OtpEndpointError e)], g)
      | Inr data \<Rightarrow>
          if \<not> py_bool data then
            (OtpRequired, [ALog ERROR InvalidOtpRequest, APrint InvalidOtpRequest], g)
          else
            (case py_contains data ''otp'' of
               Inl e \<Rightarrow>
                 (OtpFailed e, [ALog ERROR (OtpEndpointError e), APrint (OtpEndpointError e)], g)
             | Inr False \<Rightarrow>
                 (OtpRequired, [ALog ERROR InvalidOtpRequest, APrint InvalidOtpRequest], g)
             | Inr True \<Rightarrow>
                 (case py_getitem data ''otp'' of
                    Inl e \<Rightarrow>
                      (OtpFailed e,
                       [ALog ERROR (OtpEndpointError e), APrint (OtpEndpointError e)], g)
                  | Inr otp \<Rightarrow>
                      (OtpAccepted otp,
                       [ALog INFO (OtpReceived otp), APrint (OtpReceived otp)],
                       g\<lparr>otp_received := otp, login_event := True\<rparr>))))"

subsection \<open>\<open>telegram_login\<close>\<close>

text \<open>What the Telegram client answers during one run of the login.\<close>

record telegram =
  connect :: "exn + unit"
  is_user_authorized :: "exn + bool"
  send_code_request :: "exn + unit"
  sign_in :: "json \<Rightarrow> exn + unit"

text \<open>
  The coroutine has one place where it waits for something of this program:
  \<open>await login_event.wait()\<close>. \<open>login_start\<close> is the run up to there; it ends waiting, or
  with the value the coroutine returns.
\<close>

datatype login_status = Waiting | Returned bool

definition request_code :: "telegram \<Rightarrow> globals \<Rightarrow> auth_event list \<times> globals \<times> login_status" where
  "request_code client g =
     (if \<not> otp_request_sent g then
        (case send_code_request client of
           Inr u \<Rightarrow>
             ([ALog INFO InitiatingLogin, APrint InitiatingLogin, TCall SendCodeRequest,
               ALog INFO OtpRequestSent, APrint OtpRequestSent,
               ALog INFO WaitingForOtp, APrint WaitingForOtp],
              g\<lparr>otp_request_sent := True\<rparr>, Waiting)
         | Inl (FloodWaitError seconds) \<Rightarrow>
             ([ALog INFO InitiatingLogin, APrint InitiatingLogin, TCall SendCodeRequest,
               ALog ERROR (TooManyRequests seconds), APrint (TooManyRequests seconds)],
              g, Returned False)
         | Inl e \<Rightarrow>
             ([ALog INFO InitiatingLogin, APrint InitiatingLogin, TCall SendCodeRequest,
               ALog ERROR (SendCodeError e), APrint (SendCodeError e)],
              g, Returned False))
      else ([ALog INFO WaitingForOtp, APrint WaitingForOtp], g, Waiting))"

definition login_start :: "telegram \<Rightarrow> globals \<Rightarrow> auth_event list \<times> globals \<times> login_status" where
  "login_start client g =
     (case connect client of
        Inl e \<Rightarrow>
          ([ALog INFO Connecting, APrint Connecting, TCall Connect,
            ALog ERROR (UnexpectedLoginError e), APrint (UnexpectedLoginError e)],
           g, Returned False)
      | Inr u \<Rightarrow>
          (let evs = [ALog INFO Connecting, APrint Connecting, TCall Connect,
                      ALog INFO CheckingAuthorized, APrint CheckingAuthorized,
                      TCall IsUserAuthorized]
           in case is_user_authorized client of
                Inl e \<Rightarrow>
                  (evs @ [ALog ERROR (UnexpectedLoginError e), APrint (UnexpectedLoginError e)],
                   g, Returned False)
              | Inr True \<Rightarrow>
                  (evs @ [ALog INFO AlreadyAuthorized, APrint AlreadyAuthorized], g, Returned True)
              | Inr False \<Rightarrow>
                  (case request_code client g of (evs', g', st) \<Rightarrow> (evs @ evs', g', st))))"

text \<open>The rest of the coroutine, once the wait is over.\<close>

definition login_resume :: "telegram \<Rightarrow> globals \<Rightarrow> auth_event list \<times> globals \<times> bool" where
  "login_resume client g =
     (if py_bool (otp_received g) then
        (case sign_in client (otp_received g) of
           Inr u \<Rightarrow>
             ([TCall (SignIn (otp_received g)), ALog INFO LoginSuccessful, APrint LoginSuccessful],
              g, True)
         | Inl PhoneCodeInvalidError \<Rightarrow>
             ([TCall (SignIn (otp_received g)), ALog ERROR (InvalidOtp (otp_received g)),
               APrint (InvalidOtp (otp_received g))],
              g\<lparr>otp_received := JNone, login_event := False\<rparr>, False)
         | Inl SessionPasswordNeededError \<Rightarrow>
             ([TCall (SignIn (otp_received g)), ALog ERROR TwoFactorEnabled, APrint TwoFactorEnabled],
              g\<lparr>otp_received := JNone, login_event := False\<rparr>, False)
         | Inl e \<Rightarrow>
             ([TCall (SignIn (otp_received g)), ALog ERROR (LoginError e), APrint (LoginError e)],
              g\<lparr>otp_received := JNone, login_event := False\<rparr>, False))
      else ([ALog ERROR OtpNotReceived, APrint OtpNotReceived], g, False))"

subsection \<open>The login and the endpoint side by side\<close>

text \<open>
  Where the login coroutine stands: not yet at its wait, blocked in it, or returned
  (with \<open>True\<close> or \<open>False\<close>). The Flask thread serves \<open>/otp\<close> from before the login
  starts until the process ends.
\<close>

datatype auth_state = Unauthenticated | AwaitingOtp | Authenticated | PermanentlyFailed

record process =
  auth :: auth_state
  vars :: globals

definition initial_process :: process where
  "initial_process = \<lparr>auth = Unauthenticated, vars = initial_globals\<rparr>"

definition finished :: "bool \<Rightarrow> auth_state" where
  "finished success = (if success then Authenticated else PermanentlyFailed)"

text \<open>
  What can happen: \<open>telegram_login\<close> is called (\<open>Enter\<close>; \<open>main\<close> does it once, and
  a second call is a re-entry), a request reaches \<open>/otp\<close> (\<open>Post\<close>), or the blocked
  login wakes up because the event is set (\<open>Wake\<close>). An action that cannot happen in a
  state changes nothing.
\<close>

datatype action = Enter telegram | Post "exn + json" | Wake telegram

definition act :: "action \<Rightarrow> process \<Rightarrow> auth_event list \<times> process" where
  "act a p =
     (case a of
        Enter client \<Rightarrow>
          if auth p = AwaitingOtp then ([], p)
          else (case login_start client (vars p) of
                  (evs, g, Waiting) \<Rightarrow> (evs, \<lparr>auth = AwaitingOtp, vars = g\<rparr>)
                | (evs, g, Returned b) \<Rightarrow> (evs, \<lparr>auth = finished b, vars = g\<rparr>))
      | Post body \<Rightarrow>
          (case receive_otp body (vars p) of (reply, evs, g) \<Rightarrow> (evs, p\<lparr>vars := g\<rparr>))
      | Wake client \<Rightarrow>
          if auth p = AwaitingOtp \<and> login_event (vars p) then
            (case login_resume client (vars p) of
               (evs, g, b) \<Rightarrow> (evs, \<lparr>auth = finished b, vars = g\<rparr>))
          else ([], p))"

fun run :: "action list \<Rightarrow> process \<Rightarrow> auth_event list \<times> process" where
  "run [] p = ([], p)"
| "run (a # as) p =
     (case act a p of (evs, p') \<Rightarrow> (case run as p' of (evs', p'') \<Rightarrow> (evs @ evs', p'')))"

text \<open>The code requests of a run: those made, and those that went through.\<close>

definition code_requests :: "auth_event list \<Rightarrow> nat" where
  "code_requests evs = count_list evs (TCall SendCodeRequest)"

definition code_requests_sent :: "auth_event list \<Rightarrow> nat" where
  "code_requests_sent evs = count_list evs (ALog INFO OtpRequestSent)"

section \<open>Notions used in the statements\<close>

subsection \<open>Reading a run\<close>

text \<open>A run reports a trade when it logs the trade details.\<close>

fun is_trade_report :: "event \<Rightarrow> bool" where
  "is_trade_report (Log lvl (TradeDetails details)) = True"
| "is_trade_report ev = False"

definition reports_trade :: "event list \<Rightarrow> bool" where
  "reports_trade evs = list_ex is_trade_report evs"

text \<open>
  An order response as the data model has it: an object with a status code and a status
  message, whose \<open>result\<close>, when there is one, is an object.
\<close>

definition order_result :: "json \<Rightarrow> bool" where
  "order_result order =
     (case order of
        JDict kvs \<Rightarrow>
          map_of kvs ''retCode'' \<noteq> None \<and> map_of kvs ''retMsg'' \<noteq> None \<and>
          (case map_of kvs ''result'' of
             None \<Rightarrow> True
           | Some (JDict r) \<Rightarrow> True
           | Some v \<Rightarrow> False)
      | _ \<Rightarrow> False)"

text \<open>The order the handler builds.\<close>

definition buy_order :: "string \<Rightarrow> pyfloat \<Rightarrow> pyfloat \<Rightarrow> pyfloat \<Rightarrow> pyfloat \<Rightarrow> order_params" where
  "buy_order symb pri sl tp max_qty =
     \<lparr>op_category = ''linear'', op_symbol = symb, op_side = ''Buy'',
      op_order_type = ''Limit'', op_qty = max_qty, op_price = pri,
      op_time_in_force = ''GTC'', op_stopLoss = sl, op_takeProfit = tp\<rparr>"

subsection \<open>Wallet responses without a USDT entry\<close>

text \<open>A coin record that is not the USDT one.\<close>

fun other_coin :: "json \<Rightarrow> bool" where
  "other_coin (JDict kvs) = (map_of kvs ''coin'' \<noteq> Some (JStr ''USDT''))"
| "other_coin v = False"

text \<open>
  An account in which the scan finds no USDT entry: its coins are a list of other
  records, one other record, or nothing the scan looks into.
\<close>

fun without_usdt :: "json \<Rightarrow> bool" where
  "without_usdt (JDict kvs) =
     (case map_of kvs ''coin'' of
        None \<Rightarrow> True
      | Some (JList cs) \<Rightarrow> list_all other_coin cs
      | Some (JDict c) \<Rightarrow> other_coin (JDict c)
      | Some v \<Rightarrow> True)"
| "without_usdt v = False"

fun is_order :: "request \<Rightarrow> bool" where
  "is_order (PlaceOrder params) = True"
| "is_order r = False"

subsection \<open>Counting what the login does\<close>

text \<open>An action resumes the blocked login when it is a wake-up that can happen.\<close>

definition resumes :: "action \<Rightarrow> process \<Rightarrow> bool" where
  "resumes a p =
     (case a of Wake client \<Rightarrow> auth p = AwaitingOtp \<and> login_event (vars p) | _ \<Rightarrow> False)"

fun resumptions :: "action list \<Rightarrow> process \<Rightarrow> nat" where
  "resumptions [] p = 0"
| "resumptions (a # as) p = (if resumes a p then 1 else 0) + resumptions as (snd (act a p))"

section \<open>Scenarios\<close>

subsection \<open>Scenarios of the handler\<close>

text \<open>The signal of the specification's scenarios, and one without its last line.\<close>

definition btc_signal :: string where
  "btc_signal = ''Symbol: BTCUSDT'' @ [CHR 0x0A] @ ''Price: 50000'' @ [CHR 0x0A] @
                ''Stop Loss: 49000'' @ [CHR 0x0A] @ ''Take Profit: 52000''"

definition btc_signal_cut :: string where
  "btc_signal_cut = ''Symbol: BTCUSDT'' @ [CHR 0x0A] @ ''Price: 50000'' @ [CHR 0x0A] @
                    ''Stop Loss: 49000''"

definition instruments_listing :: "string \<Rightarrow> json" where
  "instruments_listing step =
     JDict [(''retCode'', JInt 0),
            (''result'', JDict [(''list'', JList
               [JDict [(''symbol'', JStr ''ETHUSDT''),
                       (''lotSizeFilter'', JDict [(''qtyStep'', JStr ''0.01'')])],
                JDict [(''symbol'', JStr ''BTCUSDT''),
                       (''lotSizeFilter'', JDict [(''qtyStep'', JStr step)])]])])]"

definition usdt_coin :: "string \<Rightarrow> json" where
  "usdt_coin balance =
     JDict [(''coin'', JStr ''USDT''), (''equity'', JStr balance),
            (''walletBalance'', JStr balance)]"

definition btc_coin :: json where
  "btc_coin = JDict [(''coin'', JStr ''BTC''), (''equity'', JStr ''0.5''),
                     (''walletBalance'', JStr ''0.5'')]"

text \<open>A wallet response with one account, whose coins are given.\<close>

definition wallet_listing :: "json \<Rightarrow> json" where
  "wallet_listing coins =
     JDict [(''retCode'', JInt 0),
            (''result'', JDict [(''list'', JList
               [JDict [(''accountType'', JStr ''UNIFIED''), (''coin'', coins)]])])]"

definition order_filled :: json where
  "order_filled =
     JDict [(''retCode'', JInt 0), (''retMsg'', JStr ''OK''),
            (''result'', JDict [(''orderId'', JStr ''1321003749386327552'')]),
            (''time'', JInt 1672211918471)]"

definition order_refused :: json where
  "order_refused =
     JDict [(''retCode'', JInt 110007), (''retMsg'', JStr ''Insufficient available balance''),
            (''result'', JDict []), (''time'', JInt 1672211918471)]"

text \<open>
  An exchange with the BTCUSDT step, a USDT balance (listed among other coins) and an
  answer to every order.
\<close>

definition exchange_with :: "string \<Rightarrow> string \<Rightarrow> exn + json \<Rightarrow> exchange" where
  "exchange_with step balance answer =
     \<lparr>get_instruments_info = Inr (instruments_listing step),
      get_wallet_balance = Inr (wallet_listing (JList [btc_coin, usdt_coin balance])),
      place_order = (\<lambda>params. answer)\<rparr>"

text \<open>The signal with a price of zero.\<close>

definition zero_price_signal :: string where
  "zero_price_signal = ''Symbol: BTCUSDT'' @ [CHR 0x0A] @ ''Price: 0'' @ [CHR 0x0A] @
                       ''Stop Loss: 49000'' @ [CHR 0x0A] @ ''Take Profit: 52000''"

text \<open>A signal text from its four values, one line each.\<close>

definition signal_text :: "string \<Rightarrow> string \<Rightarrow> string \<Rightarrow> string \<Rightarrow> string" where
  "signal_text symb pri sl tp =
     ''Symbol: '' @ symb @ [CHR 0x0A] @ ''Price: '' @ pri @ [CHR 0x0A] @
     ''Stop Loss: '' @ sl @ [CHR 0x0A] @ ''Take Profit: '' @ tp"

subsection \<open>Scenarios of the login\<close>

text \<open>A Telegram client that is not authorized yet and accepts everything.\<close>

definition telegram_accepting :: telegram where
  "telegram_accepting =
     \<lparr>connect = Inr (), is_user_authorized = Inr False, send_code_request = Inr (),
      sign_in = (\<lambda>code. Inr ())\<rparr>"

text \<open>The same client while Telegram refuses code requests for a minute.\<close>

definition telegram_flooded :: telegram where
  "telegram_flooded = telegram_accepting\<lparr>send_code_request := Inl (FloodWaitError 60)\<rparr>"

text \<open>The process once the login has asked for a code and waits for the OTP.\<close>

definition waiting_process :: process where
  "waiting_process = snd (act (Enter telegram_accepting) initial_process)"

definition otp_body :: "string \<Rightarrow> exn + json" where
  "otp_body code = Inr (JDict [(''otp'', JStr code)])"


section \<open>Properties of the handler\<close>

subsection \<open>Orders and failures\<close>

lemma and_then_simps [simp]:
  "and_then (Inl e) f = Inl e"
  "and_then (Inr x) f = f x"
  by (simp_all add: and_then_def)

lemma handle_bot_response_returns: "snd (handle_bot_response session raw_text) = Inr ()"
  by (simp add: handle_bot_response_def Let_def split: prod.splits sum.splits)

lemma handle_bot_response_caught:
  "handle_body session (str_strip (str_strip_chars [CHR 0x22] raw_text)) = (evs, Inl e) \<Longrightarrow>
   handle_bot_response session raw_text = (evs @ [Log ERROR (HandlerError e), Print (HandlerError e)], Inr ())"
  by (simp add: handle_bot_response_def Let_def)

lemma bot_message_handler_returns: "snd (bot_message_handler session raw_text) = Inr ()"
  using handle_bot_response_returns[of session raw_text]
  by (cases "handle_bot_response session raw_text") (simp add: bot_message_handler_def)

lemma listen_all:
  "listen messages = (concat (map (\<lambda>(s, t). fst (bot_message_handler s t)) messages), Inr ())"
proof (induction messages)
  case Nil
  then show ?case by simp
next
  case (Cons m ms)
  obtain s t where m: "m = (s, t)" by (cases m)
  obtain evs where h: "bot_message_handler s t = (evs, Inr ())"
    using bot_message_handler_returns[of s t] by (cases "bot_message_handler s t") auto
  show ?case using Cons.IH by (simp add: m h)
qed

lemma submit_order_pos:
  assumes "float_gt_zero max_qty"
  shows "submit_order session symb pri sl tp max_qty equity wallet_balance =
     [Log INFO (PlacingOrder (buy_order symb pri sl tp max_qty)),
      Call (PlaceOrder (buy_order symb pri sl tp max_qty))] @
     (case order_outcome session (buy_order symb pri sl tp max_qty) equity wallet_balance of
        Inl e \<Rightarrow> [Log ERROR (OrderException e), Print (OrderException e)]
      | Inr (lvl, msg) \<Rightarrow> [Log lvl msg, Print msg])"
  using assms by (simp add: submit_order_def buy_order_def Let_def)

lemma order_outcome_report:
  "order_outcome session params equity wallet_balance = Inr (lvl, TradeDetails details) \<Longrightarrow>
   \<exists>order rc. place_order session params = Inr order \<and> py_getitem order ''retCode'' = Inr rc \<and> py_eq_zero rc"
  by (auto simp: order_outcome_def and_then_def split: sum.splits if_splits)

lemma order_outcome_shape:
  "order_outcome session params equity wallet_balance = Inr (lvl, msg) \<Longrightarrow>
   (\<exists>details. lvl = INFO \<and> msg = TradeDetails details) \<or> (\<exists>m. lvl = ERROR \<and> msg = OrderRejected m)"
  unfolding order_outcome_def and_then_def
  by (simp split: sum.splits if_splits) blast+

lemma order_outcome_raise:
  "place_order session params = Inl e \<Longrightarrow> order_outcome session params equity wallet_balance = Inl e"
  by (simp add: order_outcome_def)

lemma format_trade_details_result:
  assumes "order_result order"
  shows "\<exists>details. format_trade_details symb pr sl tp q order eqt wb = Inr details
           \<and> td_quantity details = q \<and> td_symbol details = symb"
proof -
  from assms obtain kvs where o: "order = JDict kvs" by (cases order) (auto simp: order_result_def)
  from assms o consider "map_of kvs ''result'' = None" | r where "map_of kvs ''result'' = Some (JDict r)"
    by (auto simp: order_result_def split: option.splits json.splits)
  then show ?thesis
    by cases (auto simp: o format_trade_details_def split: option.splits)
qed

lemma order_outcome_result:
  assumes "place_order session params = Inr order" "order_result order"
    "py_getitem order ''retCode'' = Inr rc" "py_getitem order ''retMsg'' = Inr msg"
  shows "if py_eq_zero rc
         then \<exists>details. order_outcome session params equity wallet_balance = Inr (INFO, TradeDetails details)
                  \<and> td_quantity details = op_qty params
         else order_outcome session params equity wallet_balance = Inr (ERROR, OrderRejected msg)"
  using assms format_trade_details_result[OF assms(2), of "op_symbol params" "op_price params"
     "op_stopLoss params" "op_takeProfit params" "op_qty params" equity wallet_balance]
  by (auto simp: order_outcome_def)

text \<open>
  C5. With a quantity above zero exactly one order request is made (it is never repeated).
  For an order response of the data model (an object with a status code and a status
  message, whose \<open>result\<close>, if any, is an object), the trade report is produced if and
  only if the status code is zero; a non-zero status is logged as a rejection carrying the
  provider's message, and an exception of the request (a transport error) is logged with
  the exception. In no run is a trade reported without a zero status code.
\<close>

theorem order_succeeds_iff_status_zero:
  assumes "float_gt_zero max_qty"
    and "params = buy_order symb pri sl tp max_qty"
    and "evs = submit_order session symb pri sl tp max_qty equity wallet_balance"
  shows "requests evs = [PlaceOrder params]
       \<and> (\<forall>order rc msg.
             place_order session params = Inr order \<and> order_result order
             \<and> py_getitem order ''retCode'' = Inr rc \<and> py_getitem order ''retMsg'' = Inr msg
             \<longrightarrow> (reports_trade evs \<longleftrightarrow> py_eq_zero rc)
                \<and> (py_eq_zero rc \<longrightarrow>
                     (\<exists>details. td_quantity details = max_qty \<and>
                        evs = [Log INFO (PlacingOrder params), Call (PlaceOrder params),
                               Log INFO (TradeDetails details), Print (TradeDetails details)]))
                \<and> (\<not> py_eq_zero rc \<longrightarrow>
                     evs = [Log INFO (PlacingOrder params), Call (PlaceOrder params),
                            Log ERROR (OrderRejected msg), Print (OrderRejected msg)]))
       \<and> (\<forall>e. place_order session params = Inl e \<longrightarrow>
             evs = [Log INFO (PlacingOrder params), Call (PlaceOrder params),
                    Log ERROR (OrderException e), Print (OrderException e)])
       \<and> (reports_trade evs \<longrightarrow>
             (\<exists>order rc. place_order session params = Inr order
                \<and> py_getitem order ''retCode'' = Inr rc \<and> py_eq_zero rc))"
proof -
  let ?out = "order_outcome session params equity wallet_balance"
  have evs: "evs = [Log INFO (PlacingOrder params), Call (PlaceOrder params)] @
     (case ?out of
        Inl e \<Rightarrow> [Log ERROR (OrderException e), Print (OrderException e)]
      | Inr (lvl, msg) \<Rightarrow> [Log lvl msg, Print msg])"
    using submit_order_pos[OF assms(1)] assms(2,3) by simp
  have 1: "requests evs = [PlaceOrder params]"
    by (simp add: evs split: sum.splits prod.splits)
  have 2: "\<forall>order rc msg.
             place_order session params = Inr order \<and> order_result order
             \<and> py_getitem order ''retCode'' = Inr rc \<and> py_getitem order ''retMsg'' = Inr msg
             \<longrightarrow> (reports_trade evs \<longleftrightarrow> py_eq_zero rc)
                \<and> (py_eq_zero rc \<longrightarrow>
                     (\<exists>details. td_quantity details = max_qty \<and>
                        evs = [Log INFO (PlacingOrder params), Call (PlaceOrder params),
                               Log INFO (TradeDetails details), Print (TradeDetails details)]))
                \<and> (\<not> py_eq_zero rc \<longrightarrow>
                     evs = [Log INFO (PlacingOrder params), Call (PlaceOrder params),
                            Log ERROR (OrderRejected msg), Print (OrderRejected msg)])"
  proof (intro allI impI, elim conjE)
    fix order rc msg
    assume a: "place_order session params = Inr order" "order_result order"
      "py_getitem order ''retCode'' = Inr rc" "py_getitem order ''retMsg'' = Inr msg"
    note r = order_outcome_result[OF a, of equity wallet_balance]
    show "(reports_trade evs \<longleftrightarrow> py_eq_zero rc)
                \<and> (py_eq_zero rc \<longrightarrow>
                     (\<exists>details. td_quantity details = max_qty \<and>
                        evs = [Log INFO (PlacingOrder params), Call (PlaceOrder params),
                               Log INFO (TradeDetails details), Print (TradeDetails details)]))
                \<and> (\<not> py_eq_zero rc \<longrightarrow>
                     evs = [Log INFO (PlacingOrder params), Call (PlaceOrder params),
                            Log ERROR (OrderRejected msg), Print (OrderRejected msg)])"
    proof (cases "py_eq_zero rc")
      case True
      with r obtain details where d: "?out = Inr (INFO, TradeDetails details)"
        and q: "td_quantity details = op_qty params" by auto
      have "op_qty params = max_qty" by (simp add: assms(2) buy_order_def)
      with True d q show ?thesis by (auto simp: evs reports_trade_def)
    next
      case False
      with r have "?out = Inr (ERROR, OrderRejected msg)" by simp
      with False show ?thesis by (simp add: evs reports_trade_def)
    qed
  qed
  have 3: "\<forall>e. place_order session params = Inl e \<longrightarrow>
             evs = [Log INFO (PlacingOrder params), Call (PlaceOrder params),
                    Log ERROR (OrderException e), Print (OrderException e)]"
    by (simp add: evs order_outcome_raise)
  have 4: "reports_trade evs \<longrightarrow>
             (\<exists>order rc. place_order session params = Inr order
                \<and> py_getitem order ''retCode'' = Inr rc \<and> py_eq_zero rc)"
  proof
    assume rt: "reports_trade evs"
    show "\<exists>order rc. place_order session params = Inr order
                \<and> py_getitem order ''retCode'' = Inr rc \<and> py_eq_zero rc"
    proof (cases ?out)
      case (Inl e)
      with rt show ?thesis by (simp add: evs reports_trade_def)
    next
      case (Inr lm)
      obtain lvl msg where lm: "lm = (lvl, msg)" by (cases lm)
      from order_outcome_shape[OF Inr[unfolded lm]] rt Inr lm
      obtain details where "?out = Inr (INFO, TradeDetails details)"
        by (auto simp: evs reports_trade_def)
      then show ?thesis by (rule order_outcome_report)
    qed
  qed
  show ?thesis using 1 2 3 4 by blast
qed


theorem order_succeeds_iff_status_zero_witness:
  "float_gt_zero (Fin 1)
   \<and> place_order (exchange_with ''0.001'' ''1000'' (Inr order_refused))
        (buy_order ''BTCUSDT'' (Fin 50000) (Fin 49000) (Fin 52000) (Fin 1)) = Inr order_refused
   \<and> order_result order_refused
   \<and> py_getitem order_refused ''retCode'' = Inr (JInt 110007)
   \<and> \<not> reports_trade (submit_order (exchange_with ''0.001'' ''1000'' (Inr order_refused))
          ''BTCUSDT'' (Fin 50000) (Fin 49000) (Fin 52000) (Fin 1) (Fin 1000) (Fin 1000))
   \<and> requests (submit_order (exchange_with ''0.001'' ''1000'' (Inr order_refused))
          ''BTCUSDT'' (Fin 50000) (Fin 49000) (Fin 52000) (Fin 1) (Fin 1000) (Fin 1000))
       = [PlaceOrder (buy_order ''BTCUSDT'' (Fin 50000) (Fin 49000) (Fin 52000) (Fin 1))]"
proof -
  have h: "float_gt_zero (Fin 1)" by simp
  have p: "place_order (exchange_with ''0.001'' ''1000'' (Inr order_refused))
        (buy_order ''BTCUSDT'' (Fin 50000) (Fin 49000) (Fin 52000) (Fin 1)) = Inr order_refused"
    by (simp add: exchange_with_def)
  have r: "order_result order_refused" by (simp add: order_result_def order_refused_def)
  have c: "py_getitem order_refused ''retCode'' = Inr (JInt 110007)"
    and m: "py_getitem order_refused ''retMsg'' = Inr (JStr ''Insufficient available balance'')"
    by (simp_all add: order_refused_def)
  from order_succeeds_iff_status_zero[OF h refl refl, of "exchange_with ''0.001'' ''1000'' (Inr order_refused)"
      "''BTCUSDT''" "Fin 50000" "Fin 49000" "Fin 52000" "Fin 1000" "Fin 1000"] p r c m
  show ?thesis by auto
qed


text \<open>
  C8. The handler always returns: whatever exception the body of its \<open>try\<close> ends with
  (a malformed signal, an unknown symbol, an unreadable wallet, or anything else raised on
  the way) is logged as the last thing the run does, and nothing leaves the handler. So
  the listener works through every message, and what it does for a message is what the
  handler does for that message alone: the handler reads and writes no variable of the
  program.
\<close>

theorem failures_stay_in_handler:
  "snd (handle_bot_response session raw_text) = Inr ()
   \<and> (handle_body session (str_strip (str_strip_chars [CHR 0x22] raw_text)) = (evs, Inl e)
        \<longrightarrow> handle_bot_response session raw_text
              = (evs @ [Log ERROR (HandlerError e), Print (HandlerError e)], Inr ()))
   \<and> snd (bot_message_handler session raw_text) = Inr ()
   \<and> listen messages
       = (concat (map (\<lambda>(s, t). fst (bot_message_handler s t)) messages), Inr ())"
  using handle_bot_response_returns handle_bot_response_caught bot_message_handler_returns
    listen_all by blast

theorem failures_stay_in_handler_witness:
  "handle_body (exchange_with ''0.001'' ''1000'' (Inr order_filled))
      (str_strip (str_strip_chars [CHR 0x22] btc_signal_cut))
     = ([], Inl (ValueError ''Invalid message format received from the bot''))
   \<and> handle_bot_response (exchange_with ''0.001'' ''1000'' (Inr order_filled)) btc_signal_cut
     = ([Log ERROR (HandlerError (ValueError ''Invalid message format received from the bot'')),
         Print (HandlerError (ValueError ''Invalid message format received from the bot''))],
        Inr ())
   \<and> snd (listen [(exchange_with ''0.001'' ''1000'' (Inr order_filled), btc_signal_cut),
                   (exchange_with ''0.001'' ''1000'' (Inr order_filled), btc_signal)]) = Inr ()"
proof -
  have h: "handle_body (exchange_with ''0.001'' ''1000'' (Inr order_filled))
      (str_strip (str_strip_chars [CHR 0x22] btc_signal_cut))
     = ([], Inl (ValueError ''Invalid message format received from the bot''))"
    by code_simp
  from failures_stay_in_handler[of "exchange_with ''0.001'' ''1000'' (Inr order_filled)" btc_signal_cut "[]"
      "ValueError ''Invalid message format received from the bot''"
      "[(exchange_with ''0.001'' ''1000'' (Inr order_filled), btc_signal_cut),
        (exchange_with ''0.001'' ''1000'' (Inr order_filled), btc_signal)]"] h
  show ?thesis by simp
qed

subsection \<open>Reading the message\<close>

lemma startswith_Nil [simp]: "startswith s [] = True"
  by (simp add: startswith_def)

lemma startswith_Cons:
  "startswith s (c # p) = (case s of [] \<Rightarrow> False | d # r \<Rightarrow> d = c \<and> startswith r p)"
  by (cases s) (auto simp: startswith_def)

lemma float_of_str_error:
  "float_of_str s = Inl e \<Longrightarrow> e = ValueError ''could not convert string to float''"
  by (auto simp: float_of_str_def split: option.splits)

lemma number_after_error:
  "number_after label part = Inl e \<Longrightarrow> e = ValueError ''could not convert string to float''"
  unfolding number_after_def by (rule float_of_str_error)

lemma read_part_symbol:
  "startswith part ''Symbol:'' \<Longrightarrow>
   read_part part fs = Inr (fs\<lparr>f_symbol := Some (str_strip (str_remove ''Symbol:'' part))\<rparr>)"
  by (simp add: read_part_def)

lemma read_part_price:
  "startswith part ''Price:'' \<Longrightarrow>
   read_part part fs = and_then (number_after ''Price:'' part) (\<lambda>x. Inr (fs\<lparr>f_price := Some x\<rparr>))"
  by (cases part) (simp_all add: read_part_def startswith_Cons)

lemma read_part_stop_loss:
  "startswith part ''Stop Loss:'' \<Longrightarrow>
   read_part part fs =
     and_then (number_after ''Stop Loss:'' part) (\<lambda>x. Inr (fs\<lparr>f_stop_loss_price := Some x\<rparr>))"
  by (cases part; cases "tl part") (auto simp add: read_part_def startswith_Cons)

lemma read_part_take_profit:
  "startswith part ''Take Profit:'' \<Longrightarrow>
   read_part part fs =
     and_then (number_after ''Take Profit:'' part) (\<lambda>x. Inr (fs\<lparr>f_take_profit_price := Some x\<rparr>))"
  by (cases part; cases "tl part") (auto simp add: read_part_def startswith_Cons)

lemma read_part_error:
  "read_part part fs = Inl e \<Longrightarrow> e = ValueError ''could not convert string to float''"
  by (auto simp: read_part_def and_then_def split: if_splits sum.splits dest: number_after_error)

lemma read_part_keeps:
  assumes "read_part part fs = Inr fs'"
  shows "(\<not> startswith part ''Symbol:'' \<longrightarrow> f_symbol fs' = f_symbol fs)
       \<and> (\<not> startswith part ''Price:'' \<longrightarrow> f_price fs' = f_price fs)
       \<and> (\<not> startswith part ''Stop Loss:'' \<longrightarrow> f_stop_loss_price fs' = f_stop_loss_price fs)
       \<and> (\<not> startswith part ''Take Profit:'' \<longrightarrow> f_take_profit_price fs' = f_take_profit_price fs)"
  using assms by (auto simp: read_part_def and_then_def split: if_splits sum.splits)

lemma read_parts_error:
  "read_parts parts fs = Inl e \<Longrightarrow> e = ValueError ''could not convert string to float''"
proof (induction parts arbitrary: fs)
  case Nil
  then show ?case by simp
next
  case (Cons part parts)
  show ?case
  proof (cases "read_part part fs")
    case (Inl e')
    with Cons.prems read_part_error[OF Inl] show ?thesis by simp
  next
    case (Inr fs1)
    with Cons.prems have "read_parts parts fs1 = Inl e" by simp
    then show ?thesis by (rule Cons.IH)
  qed
qed

lemma read_parts_keeps:
  assumes "read_parts parts fs = Inr fs'"
  shows "((\<forall>part \<in> set parts. \<not> startswith part ''Symbol:'') \<longrightarrow> f_symbol fs' = f_symbol fs)
       \<and> ((\<forall>part \<in> set parts. \<not> startswith part ''Price:'') \<longrightarrow> f_price fs' = f_price fs)
       \<and> ((\<forall>part \<in> set parts. \<not> startswith part ''Stop Loss:'')
             \<longrightarrow> f_stop_loss_price fs' = f_stop_loss_price fs)
       \<and> ((\<forall>part \<in> set parts. \<not> startswith part ''Take Profit:'')
             \<longrightarrow> f_take_profit_price fs' = f_take_profit_price fs)"
  using assms
proof (induction parts arbitrary: fs)
  case Nil
  then show ?case by simp
next
  case (Cons part parts)
  from Cons.prems obtain fs1 where 1: "read_part part fs = Inr fs1"
    and 2: "read_parts parts fs1 = Inr fs'"
    by (cases "read_part part fs") auto
  from read_part_keeps[OF 1] Cons.IH[OF 2] show ?case by auto
qed

lemma read_parts_failing_part:
  assumes "part \<in> set parts" "read_part part fs0 = Inl e0"
    and "\<And>fs. read_part part fs = Inl e0"
  shows "\<exists>e. read_parts parts fs = Inl e"
  using assms(1)
proof (induction parts arbitrary: fs)
  case Nil
  then show ?case by simp
next
  case (Cons p ps)
  show ?case
  proof (cases "read_part p fs")
    case (Inl e)
    then show ?thesis by simp
  next
    case (Inr fs1)
    with Cons.prems assms(3)[of fs] have "part \<in> set ps" by auto
    from Cons.IH[OF this, of fs1] Inr show ?thesis by simp
  qed
qed

lemma read_part_fails:
  assumes "label \<in> set [''Price:'', ''Stop Loss:'', ''Take Profit:'']"
    "startswith part label" "number_after label part = Inl e"
  shows "read_part part fs = Inl e"
  using assms read_part_price[of part fs] read_part_stop_loss[of part fs]
    read_part_take_profit[of part fs]
  by auto

lemma all_fields_missing:
  "f_symbol fs = None \<or> f_price fs = None \<or> f_stop_loss_price fs = None
     \<or> f_take_profit_price fs = None \<Longrightarrow> all_fields fs = None"
  by (auto simp: all_fields_def split: option.splits)

lemma all_fields_falsy:
  "f_symbol fs = Some [] \<or> f_price fs = Some (Fin 0) \<or> f_stop_loss_price fs = Some (Fin 0)
     \<or> f_take_profit_price fs = Some (Fin 0) \<Longrightarrow> all_fields fs = None"
  by (auto simp: all_fields_def split: option.splits)

lemma handle_parse_error:
  assumes "parse_signal (str_strip (str_strip_chars [CHR 0x22] raw_text)) = Inl e"
  shows "handle_bot_response session raw_text
           = ([Log ERROR (HandlerError e), Print (HandlerError e)], Inr ())"
  using assms by (simp add: handle_bot_response_def handle_body_def Let_def)

text \<open>
  C2. When no line of the message starts with one of the four labels, or the text after
  the label of a numeric line is not a float literal, reading the message ends with a
  \<open>ValueError\<close> and no signal (not even a partial one); the handler logs it and returns,
  and no request goes to the exchange: no instrument query, no wallet query, no order.
\<close>

theorem malformed_signal_no_exchange_call:
  assumes "parts = str_split CHR 0x0A (str_strip (str_strip_chars [CHR 0x22] raw_text))"
    and "(\<exists>label \<in> set [''Symbol:'', ''Price:'', ''Stop Loss:'', ''Take Profit:''].
            \<forall>part \<in> set parts. \<not> startswith part label)
         \<or> (\<exists>part \<in> set parts. \<exists>label \<in> set [''Price:'', ''Stop Loss:'', ''Take Profit:''].
               startswith part label \<and> (\<exists>e. number_after label part = Inl e))"
  shows "\<exists>msg. parse_signal (str_strip (str_strip_chars [CHR 0x22] raw_text)) = Inl (ValueError msg)
           \<and> handle_bot_response session raw_text
               = ([Log ERROR (HandlerError (ValueError msg)),
                   Print (HandlerError (ValueError msg))], Inr ())
           \<and> requests (fst (handle_bot_response session raw_text)) = []"
proof -
  let ?text = "str_strip (str_strip_chars [CHR 0x22] raw_text)"
  have "\<exists>msg. parse_signal ?text = Inl (ValueError msg)"
  proof (cases "read_parts parts no_fields")
    case (Inl e)
    with read_parts_error[OF Inl] show ?thesis by (simp add: parse_signal_def assms(1)[symmetric])
  next
    case (Inr fs)
    have none: "\<not> (\<exists>part \<in> set parts. \<exists>label \<in> set [''Price:'', ''Stop Loss:'', ''Take Profit:''].
               startswith part label \<and> (\<exists>e. number_after label part = Inl e))"
    proof
      assume "\<exists>part \<in> set parts. \<exists>label \<in> set [''Price:'', ''Stop Loss:'', ''Take Profit:''].
               startswith part label \<and> (\<exists>e. number_after label part = Inl e)"
      then obtain part label e where p: "part \<in> set parts"
        and l: "label \<in> set [''Price:'', ''Stop Loss:'', ''Take Profit:'']"
        and s: "startswith part label" and n: "number_after label part = Inl e" by blast
      have "\<And>fs. read_part part fs = Inl e" by (rule read_part_fails[OF l s n])
      from read_parts_failing_part[OF p this this, of no_fields] Inr show False by simp
    qed
    with assms(2) obtain label where l: "label \<in> set [''Symbol:'', ''Price:'', ''Stop Loss:'', ''Take Profit:'']"
      and m: "\<forall>part \<in> set parts. \<not> startswith part label" by blast
    from read_parts_keeps[OF Inr] l m
    have "f_symbol fs = None \<or> f_price fs = None \<or> f_stop_loss_price fs = None
            \<or> f_take_profit_price fs = None"
      by (auto simp: no_fields_def)
    then have "all_fields fs = None" by (rule all_fields_missing)
    with Inr show ?thesis by (simp add: parse_signal_def assms(1)[symmetric])
  qed
  then obtain msg where p: "parse_signal ?text = Inl (ValueError msg)" ..
  from handle_parse_error[OF p, of session] p show ?thesis by simp
qed


theorem malformed_signal_no_exchange_call_witness:
  "str_split CHR 0x0A (str_strip (str_strip_chars [CHR 0x22] btc_signal_cut))
     = [''Symbol: BTCUSDT'', ''Price: 50000'', ''Stop Loss: 49000'']
   \<and> \<not> startswith ''Symbol: BTCUSDT'' ''Take Profit:''
   \<and> \<not> startswith ''Price: 50000'' ''Take Profit:''
   \<and> \<not> startswith ''Stop Loss: 49000'' ''Take Profit:''
   \<and> handle_bot_response (exchange_with ''0.001'' ''1000'' (Inr order_filled)) btc_signal_cut
       = ([Log ERROR (HandlerError (ValueError ''Invalid message format received from the bot'')),
           Print (HandlerError (ValueError ''Invalid message format received from the bot''))],
          Inr ())
   \<and> requests (fst (handle_bot_response (exchange_with ''0.001'' ''1000'' (Inr order_filled))
         btc_signal_cut)) = []"
proof -
  have s: "str_split CHR 0x0A (str_strip (str_strip_chars [CHR 0x22] btc_signal_cut))
     = [''Symbol: BTCUSDT'', ''Price: 50000'', ''Stop Loss: 49000'']"
    by code_simp
  have n: "\<not> startswith ''Symbol: BTCUSDT'' ''Take Profit:''"
    "\<not> startswith ''Price: 50000'' ''Take Profit:''"
    "\<not> startswith ''Stop Loss: 49000'' ''Take Profit:''"
    by (simp_all add: startswith_def)
  have p: "parse_signal (str_strip (str_strip_chars [CHR 0x22] btc_signal_cut))
            = Inl (ValueError ''Invalid message format received from the bot'')"
    by code_simp
  from s n have d: "(\<exists>label \<in> set [''Symbol:'', ''Price:'', ''Stop Loss:'', ''Take Profit:''].
            \<forall>part \<in> set (str_split CHR 0x0A (str_strip (str_strip_chars [CHR 0x22] btc_signal_cut))).
              \<not> startswith part label)
         \<or> (\<exists>part \<in> set (str_split CHR 0x0A (str_strip (str_strip_chars [CHR 0x22] btc_signal_cut))).
              \<exists>label \<in> set [''Price:'', ''Stop Loss:'', ''Take Profit:''].
               startswith part label \<and> (\<exists>e. number_after label part = Inl e))"
    by simp
  from malformed_signal_no_exchange_call[OF refl d,
      of "exchange_with ''0.001'' ''1000'' (Inr order_filled)"] p s n
  show ?thesis by auto
qed

text \<open>
  C9. When the four lines are read without error but the loop ends with an empty symbol
  or with a number equal to zero, \<open>all\<close> finds a falsy value: the handler raises the
  same "Invalid message format" error as for a missing line, logs it, and makes no request
  to the exchange.
\<close>

theorem zero_or_empty_field_is_malformed:
  assumes "read_parts (str_split CHR 0x0A (str_strip (str_strip_chars [CHR 0x22] raw_text)))
             no_fields = Inr fs"
    and "f_symbol fs = Some [] \<or> f_price fs = Some (Fin 0) \<or> f_stop_loss_price fs = Some (Fin 0)
         \<or> f_take_profit_price fs = Some (Fin 0)"
  shows "handle_bot_response session raw_text
           = ([Log ERROR (HandlerError (ValueError ''Invalid message format received from the bot'')),
               Print (HandlerError (ValueError ''Invalid message format received from the bot''))],
              Inr ())
       \<and> requests (fst (handle_bot_response session raw_text)) = []"
proof -
  from assms(2) have "all_fields fs = None" by (rule all_fields_falsy)
  with assms(1) have "parse_signal (str_strip (str_strip_chars [CHR 0x22] raw_text))
      = Inl (ValueError ''Invalid message format received from the bot'')"
    by (simp add: parse_signal_def)
  from handle_parse_error[OF this, of session] show ?thesis by simp
qed

theorem zero_or_empty_field_is_malformed_witness:
  "read_parts (str_split CHR 0x0A (str_strip (str_strip_chars [CHR 0x22] zero_price_signal)))
      no_fields
     = Inr \<lparr>f_symbol = Some ''BTCUSDT'', f_price = Some (Fin 0),
            f_stop_loss_price = Some (Fin 49000), f_take_profit_price = Some (Fin 52000)\<rparr>
   \<and> handle_bot_response (exchange_with ''0.001'' ''1000'' (Inr order_filled)) zero_price_signal
       = ([Log ERROR (HandlerError (ValueError ''Invalid message format received from the bot'')),
           Print (HandlerError (ValueError ''Invalid message format received from the bot''))],
          Inr ())
   \<and> requests (fst (handle_bot_response (exchange_with ''0.001'' ''1000'' (Inr order_filled))
         zero_price_signal)) = []"
proof -
  have h: "read_parts
      (str_split CHR 0x0A (str_strip (str_strip_chars [CHR 0x22] zero_price_signal))) no_fields
     = Inr \<lparr>f_symbol = Some ''BTCUSDT'', f_price = Some (Fin 0),
            f_stop_loss_price = Some (Fin 49000), f_take_profit_price = Some (Fin 52000)\<rparr>"
    by code_simp
  from zero_or_empty_field_is_malformed[OF h, of "exchange_with ''0.001'' ''1000'' (Inr order_filled)"] h
  show ?thesis by simp
qed

subsection \<open>The wallet response\<close>

lemma other_coin_get:
  "other_coin c \<Longrightarrow> \<exists>v. py_get c ''coin'' JNone = Inr v \<and> \<not> py_eq_str v ''USDT''"
proof (cases c)
  case (JDict kvs)
  assume "other_coin c"
  with JDict have n: "map_of kvs ''coin'' \<noteq> Some (JStr ''USDT'')" by simp
  show ?thesis
  proof (cases "map_of kvs ''coin''")
    case None
    with JDict show ?thesis by simp
  next
    case (Some v)
    with n have "\<not> py_eq_str v ''USDT''" by (cases v) auto
    with Some JDict show ?thesis by simp
  qed
qed simp_all

lemma find_usdt_others:
  "list_all other_coin cs \<Longrightarrow> find_usdt u (cs @ rest) = find_usdt u rest"
proof (induction cs)
  case Nil
  then show ?case by simp
next
  case (Cons c cs)
  then obtain v where "py_get c ''coin'' JNone = Inr v" "\<not> py_eq_str v ''USDT''"
    using other_coin_get[of c] by auto
  with Cons show ?case by simp
qed

lemma scan_account_single:
  assumes "map_of usdt ''coin'' = Some (JStr ''USDT'')" "map_of single ''coin'' = Some (JDict usdt)"
  shows "scan_account u (JDict single) = Inr (Some (JDict usdt))"
  using assms by (simp add: scan_account_def)

lemma scan_account_listed:
  assumes "map_of usdt ''coin'' = Some (JStr ''USDT'')" "list_all other_coin before"
    "map_of listed ''coin'' = Some (JList (before @ JDict usdt # after))"
  shows "scan_account u (JDict listed) = Inr (Some (JDict usdt))"
  using assms by (simp add: scan_account_def find_usdt_others)

lemma scan_accounts_same:
  assumes "\<And>u. scan_account u a1 = scan_account u a2"
  shows "scan_accounts u (earlier @ a1 # later) = scan_accounts u (earlier @ a2 # later)"
proof (induction earlier arbitrary: u)
  case Nil
  show ?case using assms[of u] by simp
next
  case (Cons a as)
  show ?case
    by (cases "scan_account u a") (simp_all add: Cons.IH)
qed

lemma usdt_balance_list:
  assumes "py_getitem response ''result'' = Inr result"
    "py_getitem result ''list'' = Inr (JList accounts)" "accounts \<noteq> []"
  shows "usdt_balance response =
     and_then (scan_accounts None accounts) (\<lambda>usdt_data.
               case usdt_data of
                 None \<Rightarrow> Inl (ValueError ''USDT balance not found in the response'')
               | Some usdt \<Rightarrow>
                   if py_bool usdt then balances_of usdt
                   else Inl (ValueError ''USDT balance not found in the response''))"
  using assms by (simp add: usdt_balance_def)

lemma scan_account_without:
  assumes "without_usdt a"
  shows "scan_account u a = Inr u"
proof (cases a)
  case (JDict kvs)
  show ?thesis
  proof (cases "map_of kvs ''coin''")
    case None
    with JDict show ?thesis by (simp add: scan_account_def)
  next
    case (Some coins)
    show ?thesis
    proof (cases coins)
      case (JList cs)
      with assms JDict Some have "list_all other_coin cs" by simp
      from find_usdt_others[OF this, of u "[]"] JDict Some JList show ?thesis
        by (simp add: scan_account_def)
    next
      case d: (JDict c)
      with assms JDict Some have "other_coin (JDict c)" by simp
      from other_coin_get[OF this] JDict Some d show ?thesis
        by (auto simp: scan_account_def)
    qed (use JDict Some in \<open>simp_all add: scan_account_def\<close>)
  qed
qed (use assms in simp_all)

lemma scan_accounts_skip:
  "list_all without_usdt earlier \<Longrightarrow>
   scan_accounts None (earlier @ rest) = scan_accounts None rest"
  by (induction earlier) (simp_all add: scan_account_without opt_bool_def)

lemma scan_accounts_without:
  "list_all without_usdt accounts \<Longrightarrow> scan_accounts None accounts = Inr None"
  by (induction accounts) (simp_all add: scan_account_without opt_bool_def)

lemma usdt_balance_without:
  assumes "py_getitem response ''result'' = Inr result"
    "py_getitem result ''list'' = Inr (JList accounts)" "list_all without_usdt accounts"
  shows "\<exists>msg. usdt_balance response = Inl (ValueError msg)"
proof (cases "accounts = []")
  case True
  with assms show ?thesis by (simp add: usdt_balance_def)
next
  case False
  from usdt_balance_list[OF assms(1,2) False] scan_accounts_without[OF assms(3)]
  show ?thesis by simp
qed

lemma requests_append: "requests (xs @ ys) = requests xs @ requests ys"
  by (induction xs rule: requests.induct) simp_all

lemma requests_get_step_size:
  "requests (fst (get_step_size session symb)) = [GetInstrumentsInfo ''linear'']"
  by (simp add: get_step_size_def split: sum.splits)

lemma requests_read_wallet: "requests (fst (read_wallet response)) = []"
  by (simp add: read_wallet_def split: sum.splits prod.splits)

lemma read_wallet_fails_no_order:
  assumes "get_wallet_balance session = Inr response" "snd (read_wallet response) = Inl e"
  shows "\<not> list_ex is_order (requests (fst (handle_bot_response session raw_text)))"
proof -
  let ?text = "str_strip (str_strip_chars [CHR 0x22] raw_text)"
  obtain ev4 where w: "read_wallet response = (ev4, Inl e)"
    using assms(2) by (cases "read_wallet response") auto
  have r4: "requests ev4 = []" using requests_read_wallet[of response] w by simp
  have "\<not> list_ex is_order (requests (fst (handle_body session ?text)))"
  proof (cases "parse_signal ?text")
    case (Inl e')
    then show ?thesis by (simp add: handle_body_def)
  next
    case (Inr sg)
    obtain symb pri sl tp where sg: "sg = (symb, pri, sl, tp)" by (cases sg) auto
    obtain ev2 st where g: "get_step_size session symb = (ev2, st)"
      by (cases "get_step_size session symb") auto
    have r2: "requests ev2 = [GetInstrumentsInfo ''linear'']"
      using requests_get_step_size[of session symb] g by simp
    show ?thesis
      using Inr sg g r2 r4 w assms(1)
      by (cases st) (simp_all add: handle_body_def Let_def requests_append)
  qed
  then show ?thesis
    by (cases "handle_body session ?text"; cases "snd (handle_body session ?text)")
       (auto simp: handle_bot_response_def Let_def requests_append)
qed

text \<open>
  C6. Two wallet responses that differ only in how one account gives its coins, the USDT
  record alone or a list of records in which it is the first USDT one, yield the same
  result: the same equity and wallet balance (those of that record when no earlier account
  has a USDT entry), or the same failure. A response in which no account has a USDT entry,
  in either representation, fails with the one wallet \<open>ValueError\<close>; the handler then
  places no order.
\<close>

theorem usdt_entry_single_or_listed:
  "(map_of usdt ''coin'' = Some (JStr ''USDT'') \<and> list_all other_coin before
    \<and> map_of single ''coin'' = Some (JDict usdt)
    \<and> map_of listed ''coin'' = Some (JList (before @ JDict usdt # after))
    \<and> py_getitem response1 ''result'' = Inr result1
    \<and> py_getitem result1 ''list'' = Inr (JList (earlier @ JDict single # later))
    \<and> py_getitem response2 ''result'' = Inr result2
    \<and> py_getitem result2 ''list'' = Inr (JList (earlier @ JDict listed # later))
    \<longrightarrow> usdt_balance response1 = usdt_balance response2
        \<and> read_wallet response1 = read_wallet response2
        \<and> (list_all without_usdt earlier \<longrightarrow> usdt_balance response1 = balances_of (JDict usdt)))
   \<and> (py_getitem response ''result'' = Inr result
       \<and> py_getitem result ''list'' = Inr (JList accounts) \<and> list_all without_usdt accounts
    \<longrightarrow> (\<exists>msg. read_wallet response
                 = ([Log ERROR (WalletError (ValueError msg))],
                    Inl (ValueError ''Failed to parse wallet balance'')))
        \<and> (get_wallet_balance session = Inr response
             \<longrightarrow> \<not> list_ex is_order (requests (fst (handle_bot_response session raw_text)))))"
proof (intro conjI impI; (elim conjE)?)
  assume u: "map_of usdt ''coin'' = Some (JStr ''USDT'')" and b: "list_all other_coin before"
    and s: "map_of single ''coin'' = Some (JDict usdt)"
    and l: "map_of listed ''coin'' = Some (JList (before @ JDict usdt # after))"
    and r1: "py_getitem response1 ''result'' = Inr result1"
      "py_getitem result1 ''list'' = Inr (JList (earlier @ JDict single # later))"
    and r2: "py_getitem response2 ''result'' = Inr result2"
      "py_getitem result2 ''list'' = Inr (JList (earlier @ JDict listed # later))"
  have a: "\<And>v. scan_account v (JDict single) = scan_account v (JDict listed)"
    by (simp add: scan_account_single[OF u s] scan_account_listed[OF u b l])
  have sc: "scan_accounts None (earlier @ JDict single # later)
          = scan_accounts None (earlier @ JDict listed # later)"
    by (rule scan_accounts_same) (rule a)
  show eq: "usdt_balance response1 = usdt_balance response2"
    by (simp add: usdt_balance_list[OF r1] usdt_balance_list[OF r2] sc)
  then show "read_wallet response1 = read_wallet response2"
    by (simp add: read_wallet_def)
  {
    assume e: "list_all without_usdt earlier"
    have ne: "usdt \<noteq> []" using u by auto
    have "scan_accounts None (earlier @ JDict single # later) = Inr (Some (JDict usdt))"
      by (simp add: scan_accounts_skip[OF e] scan_account_single[OF u s] opt_bool_def ne)
    then show "usdt_balance response1 = balances_of (JDict usdt)"
      by (simp add: usdt_balance_list[OF r1] ne)
  }
next
  assume r: "py_getitem response ''result'' = Inr result"
    "py_getitem result ''list'' = Inr (JList accounts)" and w: "list_all without_usdt accounts"
  from usdt_balance_without[OF r w] obtain msg where m: "usdt_balance response = Inl (ValueError msg)" ..
  then show "\<exists>msg. read_wallet response
                 = ([Log ERROR (WalletError (ValueError msg))],
                    Inl (ValueError ''Failed to parse wallet balance''))"
    by (simp add: read_wallet_def)
  {
    assume g: "get_wallet_balance session = Inr response"
    have "snd (read_wallet response) = Inl (ValueError ''Failed to parse wallet balance'')"
      using m by (simp add: read_wallet_def)
    from read_wallet_fails_no_order[OF g this]
    show "\<not> list_ex is_order (requests (fst (handle_bot_response session raw_text)))" .
  }
qed

theorem usdt_entry_single_or_listed_witness:
  "usdt_balance (wallet_listing (usdt_coin ''1000'')) = Inr (Fin 1000, Fin 1000)
   \<and> usdt_balance (wallet_listing (JList [btc_coin, usdt_coin ''1000'']))
       = Inr (Fin 1000, Fin 1000)
   \<and> list_all without_usdt [JDict [(''accountType'', JStr ''UNIFIED''), (''coin'', JList [btc_coin])]]
   \<and> read_wallet (wallet_listing (JList [btc_coin]))
       = ([Log ERROR (WalletError (ValueError ''USDT balance not found in the response''))],
          Inl (ValueError ''Failed to parse wallet balance''))"
proof -
  have h1: "usdt_balance (wallet_listing (usdt_coin ''1000'')) = Inr (Fin 1000, Fin 1000)"
    by code_simp
  have w: "list_all without_usdt
             [JDict [(''accountType'', JStr ''UNIFIED''), (''coin'', JList [btc_coin])]]"
    by (simp add: btc_coin_def)
  note t = usdt_entry_single_or_listed[where usdt = "[(''coin'', JStr ''USDT''), (''equity'', JStr ''1000''),
                                  (''walletBalance'', JStr ''1000'')]"
      and before = "[btc_coin]" and after = "[]"
      and single = "[(''accountType'', JStr ''UNIFIED''), (''coin'', usdt_coin ''1000'')]"
      and listed = "[(''accountType'', JStr ''UNIFIED''),
                     (''coin'', JList [btc_coin, usdt_coin ''1000''])]"
      and earlier = "[]" and later = "[]"
      and ?response1.0 = "wallet_listing (usdt_coin ''1000'')"
      and ?result1.0 = "JDict [(''list'', JList
               [JDict [(''accountType'', JStr ''UNIFIED''), (''coin'', usdt_coin ''1000'')]])]"
      and ?response2.0 = "wallet_listing (JList [btc_coin, usdt_coin ''1000''])"
      and ?result2.0 = "JDict [(''list'', JList
               [JDict [(''accountType'', JStr ''UNIFIED''),
                       (''coin'', JList [btc_coin, usdt_coin ''1000''])]])]"
      and response = "wallet_listing (JList [btc_coin])"
      and result = "JDict [(''list'', JList
               [JDict [(''accountType'', JStr ''UNIFIED''), (''coin'', JList [btc_coin])]])]"
      and accounts = "[JDict [(''accountType'', JStr ''UNIFIED''), (''coin'', JList [btc_coin])]]"
      and session = "exchange_with ''0.001'' ''1000'' (Inr order_filled)"
      and raw_text = btc_signal]
  from t have e: "usdt_balance (wallet_listing (usdt_coin ''1000''))
                = usdt_balance (wallet_listing (JList [btc_coin, usdt_coin ''1000'']))"
    by (simp add: wallet_listing_def usdt_coin_def btc_coin_def)
  from t w have "\<exists>msg. read_wallet (wallet_listing (JList [btc_coin]))
                 = ([Log ERROR (WalletError (ValueError msg))],
                    Inl (ValueError ''Failed to parse wallet balance''))"
    by (simp add: wallet_listing_def)
  moreover have "usdt_balance (wallet_listing (JList [btc_coin]))
      = Inl (ValueError ''USDT balance not found in the response'')"
    by code_simp
  ultimately have r: "read_wallet (wallet_listing (JList [btc_coin]))
       = ([Log ERROR (WalletError (ValueError ''USDT balance not found in the response''))],
          Inl (ValueError ''Failed to parse wallet balance''))"
    by (simp add: read_wallet_def)
  show ?thesis using h1 e w r by simp
qed

subsection \<open>Sizing the order\<close>

lemma round_half_even_nonneg: "0 \<le> x \<Longrightarrow> 0 \<le> round_half_even x"
  by (auto simp: round_half_even_def Let_def)

lemma round_to_double_nonneg:
  assumes "0 \<le> q"
  shows "round_to_double q = PInf \<or> (\<exists>r. round_to_double q = Fin r \<and> 0 \<le> r)"
proof (cases "q = 0")
  case True
  then show ?thesis by (simp add: round_to_double_def)
next
  case False
  with assms have q: "0 < q" by simp
  have nn: "\<And>e. (0::rat) \<le> of_int (round_half_even (q / 2 powi e)) * 2 powi e"
    using q by (simp add: round_half_even_nonneg)
  show ?thesis unfolding round_to_double_def Let_def using q nn by simp
qed

lemma round_to_double_nonpos:
  assumes "q \<le> 0"
  shows "round_to_double q = NInf \<or> (\<exists>r. round_to_double q = Fin r \<and> r \<le> 0)"
proof (cases "q = 0")
  case True
  then show ?thesis by (simp add: round_to_double_def)
next
  case False
  with assms have q: "q < 0" by simp
  have nn: "(0::rat) \<le> of_int (round_half_even (- (q / 2 powi e))) * 2 powi e" for e
  proof -
    have "(0::rat) \<le> - (q / 2 powi e)" using q by (simp add: divide_le_0_iff)
    from round_half_even_nonneg[OF this] show ?thesis by simp
  qed
  show ?thesis unfolding round_to_double_def Let_def using q nn by simp
qed

lemma float_of_int_Inr:
  "float_of_int n = Inr x \<Longrightarrow> \<exists>a. round_to_double (of_int n) = Fin a \<and> x = Fin a"
  by (cases "round_to_double (of_int n)") (auto simp: float_of_int_def)

lemma int_mul_float_Inr:
  "int_mul_float n y = Inr q \<Longrightarrow>
   \<exists>a. round_to_double (of_int n) = Fin a \<and> q = float_mul (Fin a) y"
  by (cases "float_of_int n") (auto simp: int_mul_float_def dest: float_of_int_Inr)

lemma int_mul_float_nonpos:
  assumes "n \<le> 0" "0 < s" "int_mul_float n (Fin s) = Inr q"
  shows "\<not> float_gt_zero q"
proof -
  from int_mul_float_Inr[OF assms(3)] obtain a where a: "round_to_double (of_int n) = Fin a"
    and q: "q = float_mul (Fin a) (Fin s)" by blast
  have "of_int n \<le> (0::rat)" using assms(1) by simp
  from round_to_double_nonpos[OF this] a have "a \<le> 0" by auto
  then have "a * s \<le> 0" using assms(2) by (simp add: mult_le_0_iff)
  from round_to_double_nonpos[OF this] q show ?thesis by auto
qed

lemma int_mul_float_nonneg:
  assumes "0 \<le> n" "0 < s" "int_mul_float n (Fin s) = Inr q"
  shows "q = PInf \<or> (\<exists>x. q = Fin x \<and> 0 \<le> x)"
proof -
  from int_mul_float_Inr[OF assms(3)] obtain a where a: "round_to_double (of_int n) = Fin a"
    and q: "q = float_mul (Fin a) (Fin s)" by blast
  have "(0::rat) \<le> of_int n" using assms(1) by simp
  from round_to_double_nonneg[OF this] a have "0 \<le> a" by auto
  then have "0 \<le> a * s" using assms(2) by simp
  from round_to_double_nonneg[OF this] q show ?thesis by auto
qed

lemma submit_order_insufficient:
  "\<not> float_gt_zero max_qty \<Longrightarrow>
   submit_order session symb pri sl tp max_qty equity wallet_balance
     = [Log ERROR InsufficientBalance, Print InsufficientBalance]"
  by (simp add: submit_order_def)

lemma handle_insufficient:
  assumes "parse_signal (str_strip (str_strip_chars [CHR 0x22] raw_text)) = Inr (symb, pri, sl, tp)"
    and "snd (get_step_size session symb) = Inr step_size"
    and "get_wallet_balance session = Inr response"
    and "snd (read_wallet response) = Inr (equity, wallet_balance)"
    and "position_size wallet_balance pri step_size = Inr max_qty"
    and "\<not> float_gt_zero max_qty"
  shows "(\<exists>evs. handle_bot_response session raw_text
                = (evs @ [Log ERROR InsufficientBalance, Print InsufficientBalance], Inr ()))
       \<and> requests (fst (handle_bot_response session raw_text))
           = [GetInstrumentsInfo ''linear'', GetWalletBalance ''UNIFIED'']"
proof -
  obtain ev2 where g: "get_step_size session symb = (ev2, Inr step_size)"
    using assms(2) by (cases "get_step_size session symb") auto
  have r2: "requests ev2 = [GetInstrumentsInfo ''linear'']"
    using requests_get_step_size[of session symb] g by simp
  obtain ev4 where w: "read_wallet response = (ev4, Inr (equity, wallet_balance))"
    using assms(4) by (cases "read_wallet response") auto
  have r4: "requests ev4 = []" using requests_read_wallet[of response] w by simp
  let ?evs = "[Log INFO (ExtractedValues symb pri sl tp), Print (ExtractedValues symb pri sl tp)]
              @ ev2 @ [Call (GetWalletBalance ''UNIFIED''), Log DEBUG (FullBalanceResponse response)]
              @ ev4"
  have h: "handle_bot_response session raw_text
             = (?evs @ [Log ERROR InsufficientBalance, Print InsufficientBalance], Inr ())"
    using assms(1,3,5,6) g w
    by (simp add: handle_bot_response_def handle_body_def Let_def submit_order_def)
  have "requests (?evs @ [Log ERROR InsufficientBalance, Print InsufficientBalance])
          = [GetInstrumentsInfo ''linear'', GetWalletBalance ''UNIFIED'']"
    by (simp add: requests_append r2 r4)
  with h show ?thesis by (metis fst_conv)
qed

lemma quotient_below_one:
  assumes "0 < s" "float_truediv q1 (Fin s) = Inr (Fin steps)" "steps < 1"
    "position_size wallet_balance pri (Fin s) = Inr max_qty"
    "float_truediv wallet_balance pri = Inr q1"
  shows "\<not> float_gt_zero max_qty"
proof -
  from assms(2,4,5) have m: "int_mul_float \<lfloor>steps\<rfloor> (Fin s) = Inr max_qty"
    by (simp add: position_size_def)
  have "\<lfloor>steps\<rfloor> \<le> 0" using assms(3) by (simp add: floor_le_iff)
  from int_mul_float_nonpos[OF this assms(1) m] show ?thesis .
qed


text \<open>
  C4, as amended. Whenever the computed quantity is not above zero, the handler logs the
  insufficient balance as an ordinary outcome, returns, and has asked the exchange for the
  instruments and the wallet only: no order is placed. In particular this is so whenever
  the step size is positive and the float quotient \<open>(wallet_balance / price) / step_size\<close>
  comes out below 1. (\<open>wallet_balance < price * step_size\<close> alone does not ensure it:
  the quotient of two floats can round up to 1.)
\<close>

theorem insufficient_balance_places_no_order:
  "(\<not> float_gt_zero max_qty \<longrightarrow>
      submit_order session symb pri sl tp max_qty equity wallet_balance
        = [Log ERROR InsufficientBalance, Print InsufficientBalance])
   \<and> (parse_signal (str_strip (str_strip_chars [CHR 0x22] raw_text)) = Inr (symb, pri, sl, tp)
       \<and> snd (get_step_size session symb) = Inr step_size
       \<and> get_wallet_balance session = Inr response
       \<and> snd (read_wallet response) = Inr (equity, wallet_balance)
       \<and> position_size wallet_balance pri step_size = Inr max_qty
       \<and> \<not> float_gt_zero max_qty
      \<longrightarrow> (\<exists>evs. handle_bot_response session raw_text
                   = (evs @ [Log ERROR InsufficientBalance, Print InsufficientBalance], Inr ()))
          \<and> requests (fst (handle_bot_response session raw_text))
              = [GetInstrumentsInfo ''linear'', GetWalletBalance ''UNIFIED''])
   \<and> (0 < s \<and> float_truediv wallet_balance pri = Inr q1
       \<and> float_truediv q1 (Fin s) = Inr (Fin steps) \<and> steps < 1
       \<and> position_size wallet_balance pri (Fin s) = Inr max_qty
      \<longrightarrow> \<not> float_gt_zero max_qty)"
proof -
  have 1: "\<not> float_gt_zero max_qty \<longrightarrow>
      submit_order session symb pri sl tp max_qty equity wallet_balance
        = [Log ERROR InsufficientBalance, Print InsufficientBalance]"
    by (simp add: submit_order_insufficient)
  have 2: "parse_signal (str_strip (str_strip_chars [CHR 0x22] raw_text)) = Inr (symb, pri, sl, tp)
       \<and> snd (get_step_size session symb) = Inr step_size
       \<and> get_wallet_balance session = Inr response
       \<and> snd (read_wallet response) = Inr (equity, wallet_balance)
       \<and> position_size wallet_balance pri step_size = Inr max_qty
       \<and> \<not> float_gt_zero max_qty
      \<longrightarrow> (\<exists>evs. handle_bot_response session raw_text
                   = (evs @ [Log ERROR InsufficientBalance, Print InsufficientBalance], Inr ()))
          \<and> requests (fst (handle_bot_response session raw_text))
              = [GetInstrumentsInfo ''linear'', GetWalletBalance ''UNIFIED'']"
  proof (intro impI, elim conjE)
    assume a: "parse_signal (str_strip (str_strip_chars [CHR 0x22] raw_text)) = Inr (symb, pri, sl, tp)"
      "snd (get_step_size session symb) = Inr step_size"
      "get_wallet_balance session = Inr response"
      "snd (read_wallet response) = Inr (equity, wallet_balance)"
      "position_size wallet_balance pri step_size = Inr max_qty"
      "\<not> float_gt_zero max_qty"
    show "(\<exists>evs. handle_bot_response session raw_text
                   = (evs @ [Log ERROR InsufficientBalance, Print InsufficientBalance], Inr ()))
          \<and> requests (fst (handle_bot_response session raw_text))
              = [GetInstrumentsInfo ''linear'', GetWalletBalance ''UNIFIED'']"
      by (rule handle_insufficient[OF a])
  qed
  have 3: "0 < s \<and> float_truediv wallet_balance pri = Inr q1
       \<and> float_truediv q1 (Fin s) = Inr (Fin steps) \<and> steps < 1
       \<and> position_size wallet_balance pri (Fin s) = Inr max_qty
      \<longrightarrow> \<not> float_gt_zero max_qty"
  proof (intro impI, elim conjE)
    assume a: "0 < s" "float_truediv wallet_balance pri = Inr q1"
      "float_truediv q1 (Fin s) = Inr (Fin steps)" "steps < 1"
      "position_size wallet_balance pri (Fin s) = Inr max_qty"
    show "\<not> float_gt_zero max_qty"
      by (rule quotient_below_one[OF a(1) a(3) a(4) a(5) a(2)])
  qed
  show ?thesis by (rule conjI[OF 1 conjI[OF 2 3]])
qed


theorem insufficient_balance_places_no_order_witness:
  "parse_signal (str_strip (str_strip_chars [CHR 0x22] btc_signal))
     = Inr (''BTCUSDT'', Fin 50000, Fin 49000, Fin 52000)
   \<and> snd (get_step_size (exchange_with ''0.001'' ''10'' (Inr order_filled)) ''BTCUSDT'')
       = Inr (Fin (1152921504606847 / 1152921504606846976))
   \<and> snd (read_wallet (wallet_listing (JList [btc_coin, usdt_coin ''10''])))
       = Inr (Fin 10, Fin 10)
   \<and> position_size (Fin 10) (Fin 50000) (Fin (1152921504606847 / 1152921504606846976))
       = Inr (Fin 0)
   \<and> \<not> float_gt_zero (Fin 0)
   \<and> requests (fst (handle_bot_response (exchange_with ''0.001'' ''10'' (Inr order_filled))
         btc_signal)) = [GetInstrumentsInfo ''linear'', GetWalletBalance ''UNIFIED'']"
proof -
  have a: "parse_signal (str_strip (str_strip_chars [CHR 0x22] btc_signal))
     = Inr (''BTCUSDT'', Fin 50000, Fin 49000, Fin 52000)" by code_simp
  have b: "snd (get_step_size (exchange_with ''0.001'' ''10'' (Inr order_filled)) ''BTCUSDT'')
       = Inr (Fin (1152921504606847 / 1152921504606846976))" by code_simp
  have c: "get_wallet_balance (exchange_with ''0.001'' ''10'' (Inr order_filled))
       = Inr (wallet_listing (JList [btc_coin, usdt_coin ''10'']))"
    by (simp add: exchange_with_def)
  have d: "snd (read_wallet (wallet_listing (JList [btc_coin, usdt_coin ''10''])))
       = Inr (Fin 10, Fin 10)" by code_simp
  have e: "position_size (Fin 10) (Fin 50000) (Fin (1152921504606847 / 1152921504606846976))
       = Inr (Fin 0)" by code_simp
  have f: "\<not> float_gt_zero (Fin 0)" by simp
  from insufficient_balance_places_no_order[of "Fin 0" "exchange_with ''0.001'' ''10'' (Inr order_filled)" "''BTCUSDT''"
      "Fin 50000" "Fin 49000" "Fin 52000" "Fin 10" "Fin 10" btc_signal
      "Fin (1152921504606847 / 1152921504606846976)"
      "wallet_listing (JList [btc_coin, usdt_coin ''10''])"] a b c d e f
  have "requests (fst (handle_bot_response (exchange_with ''0.001'' ''10'' (Inr order_filled))
         btc_signal)) = [GetInstrumentsInfo ''linear'', GetWalletBalance ''UNIFIED'']"
    by blast
  with a b d e f show ?thesis by blast
qed


text \<open>
  C4 as stated fails: with a price of 23.87, a step of 0.01 and a wallet balance of 0.2387
  (as doubles) the balance is below price times step, yet both float quotients round up,
  the quantity is one step, and the order is placed.
\<close>

theorem order_placed_below_one_step:
  "float_of_str ''0.2387'' = Inr (Fin (8600073848426699 / 36028797018963968))
   \<and> float_of_str ''23.87'' = Inr (Fin (6718807694083359 / 281474976710656))
   \<and> float_of_str ''0.01'' = Inr (Fin (5764607523034235 / 576460752303423488))
   \<and> (8600073848426699 / 36028797018963968 :: rat)
       < (6718807694083359 / 281474976710656) * (5764607523034235 / 576460752303423488)
   \<and> requests (fst (handle_bot_response (exchange_with ''0.01'' ''0.2387'' (Inr order_filled))
         (signal_text ''BTCUSDT'' ''23.87'' ''23'' ''25'')))
       = [GetInstrumentsInfo ''linear'', GetWalletBalance ''UNIFIED'',
          PlaceOrder (buy_order ''BTCUSDT'' (Fin (6718807694083359 / 281474976710656))
            (Fin 23) (Fin 25) (Fin (5764607523034235 / 576460752303423488)))]"
proof -
  have 1: "float_of_str ''0.2387'' = Inr (Fin (8600073848426699 / 36028797018963968))"
    by code_simp
  have 2: "float_of_str ''23.87'' = Inr (Fin (6718807694083359 / 281474976710656))"
    by code_simp
  have 3: "float_of_str ''0.01'' = Inr (Fin (5764607523034235 / 576460752303423488))"
    by code_simp
  have 4: "(8600073848426699 / 36028797018963968 :: rat)
       < (6718807694083359 / 281474976710656) * (5764607523034235 / 576460752303423488)"
    by simp
  have 5: "requests (fst (handle_bot_response (exchange_with ''0.01'' ''0.2387'' (Inr order_filled))
         (signal_text ''BTCUSDT'' ''23.87'' ''23'' ''25'')))
       = [GetInstrumentsInfo ''linear'', GetWalletBalance ''UNIFIED'',
          PlaceOrder (buy_order ''BTCUSDT'' (Fin (6718807694083359 / 281474976710656))
            (Fin 23) (Fin 25) (Fin (5764607523034235 / 576460752303423488)))]"
    by code_simp
  show ?thesis using 1 2 3 4 5 by blast
qed

text \<open>
  C1, as amended. For a finite wallet balance that is not negative, a positive price and a
  positive step size for which the quantity is computed, the quantity is the float product
  of the step size and the integer \<open>n\<close>, the floor of the float quotient
  \<open>(wallet_balance / price) / step_size\<close>; \<open>n\<close> is not negative and not above that
  quotient, and the quantity is not negative. When the two divisions and the product are
  exact, the quantity is \<open>floor((wallet_balance / price) / step_size) * step_size\<close> and
  quantity times price is at most the wallet balance. With rounding, neither the exact
  multiple nor that bound is promised.
\<close>

theorem position_size_rounds_down:
  assumes "0 \<le> w" "0 < p" "0 < s" "position_size (Fin w) (Fin p) (Fin s) = Inr max_qty"
  shows "\<exists>q1 steps.
           float_truediv (Fin w) (Fin p) = Inr (Fin q1)
         \<and> float_truediv (Fin q1) (Fin s) = Inr (Fin steps)
         \<and> int_mul_float \<lfloor>steps\<rfloor> (Fin s) = Inr max_qty
         \<and> 0 \<le> \<lfloor>steps\<rfloor> \<and> of_int \<lfloor>steps\<rfloor> \<le> steps
         \<and> (max_qty = PInf \<or> (\<exists>x. max_qty = Fin x \<and> 0 \<le> x))
         \<and> (q1 = w / p \<and> steps = q1 / s \<and> max_qty = Fin (of_int \<lfloor>steps\<rfloor> * s)
              \<longrightarrow> max_qty = Fin (of_int \<lfloor>(w / p) / s\<rfloor> * s)
                  \<and> of_int \<lfloor>(w / p) / s\<rfloor> * s * p \<le> w)"
proof -
  have p0: "p \<noteq> 0" and s0: "s \<noteq> 0" using assms(2,3) by auto
  have d1: "float_truediv (Fin w) (Fin p) = Inr (round_to_double (w / p))" using p0 by simp
  have "0 \<le> w / p" using assms(1,2) by simp
  from round_to_double_nonneg[OF this] consider "round_to_double (w / p) = PInf"
    | q1 where "round_to_double (w / p) = Fin q1" "0 \<le> q1" by blast
  then obtain q1 where q1: "round_to_double (w / p) = Fin q1" "0 \<le> q1"
  proof cases
    case 1
    with assms(3,4) d1 have False by (simp add: position_size_def)
    then show ?thesis ..
  next
    case 2
    then show ?thesis using that by blast
  qed
  have d2: "float_truediv (Fin q1) (Fin s) = Inr (round_to_double (q1 / s))" using s0 by simp
  have "0 \<le> q1 / s" using q1(2) assms(3) by simp
  from round_to_double_nonneg[OF this] consider "round_to_double (q1 / s) = PInf"
    | steps where "round_to_double (q1 / s) = Fin steps" "0 \<le> steps" by blast
  then obtain steps where st: "round_to_double (q1 / s) = Fin steps" "0 \<le> steps"
  proof cases
    case 1
    with assms(4) d1 d2 q1 have False by (simp add: position_size_def)
    then show ?thesis ..
  next
    case 2
    then show ?thesis using that by blast
  qed
  have m: "int_mul_float \<lfloor>steps\<rfloor> (Fin s) = Inr max_qty"
    using assms(4) d1 d2 q1 st by (simp add: position_size_def)
  have n0: "0 \<le> \<lfloor>steps\<rfloor>" using st(2) by simp
  note sign = int_mul_float_nonneg[OF n0 assms(3) m]
  have exact: "q1 = w / p \<and> steps = q1 / s \<and> max_qty = Fin (of_int \<lfloor>steps\<rfloor> * s)
              \<longrightarrow> max_qty = Fin (of_int \<lfloor>(w / p) / s\<rfloor> * s)
                  \<and> of_int \<lfloor>(w / p) / s\<rfloor> * s * p \<le> w"
  proof (intro impI, elim conjE)
    assume e: "q1 = w / p" "steps = q1 / s" "max_qty = Fin (of_int \<lfloor>steps\<rfloor> * s)"
    have "of_int \<lfloor>(w / p) / s\<rfloor> \<le> (w / p) / s" by simp
    then have "of_int \<lfloor>(w / p) / s\<rfloor> * (s * p) \<le> (w / p) / s * (s * p)"
      using assms(2,3) by (intro mult_right_mono) simp_all
    also have "\<dots> = w" using p0 s0 by simp
    finally have "of_int \<lfloor>(w / p) / s\<rfloor> * s * p \<le> w" by (simp add: mult.assoc)
    with e show "max_qty = Fin (of_int \<lfloor>(w / p) / s\<rfloor> * s)
                  \<and> of_int \<lfloor>(w / p) / s\<rfloor> * s * p \<le> w" by simp
  qed
  show ?thesis
    using d1 d2 q1(1) st(1) m n0 sign exact by (intro exI[of _ q1] exI[of _ steps]) simp
qed

theorem position_size_rounds_down_witness:
  "(0::rat) \<le> 10 \<and> (0::rat) < 2 \<and> (0::rat) < 1 / 2
   \<and> position_size (Fin 10) (Fin 2) (Fin (1 / 2)) = Inr (Fin 5)
   \<and> float_truediv (Fin 10) (Fin 2) = Inr (Fin 5)
   \<and> float_truediv (Fin 5) (Fin (1 / 2)) = Inr (Fin 10)
   \<and> Fin 5 = Fin (of_int \<lfloor>((10::rat) / 2) / (1 / 2)\<rfloor> * (1 / 2))
   \<and> of_int \<lfloor>((10::rat) / 2) / (1 / 2)\<rfloor> * (1 / 2) * 2 \<le> (10::rat)"
proof -
  have h: "(0::rat) \<le> 10" "(0::rat) < 2" "(0::rat) < 1 / 2" by simp_all
  have p: "position_size (Fin 10) (Fin 2) (Fin (1 / 2)) = Inr (Fin 5)" by code_simp
  have d1: "float_truediv (Fin 10) (Fin 2) = Inr (Fin 5)" by code_simp
  have d2: "float_truediv (Fin 5) (Fin (1 / 2)) = Inr (Fin 10)" by code_simp
  from position_size_rounds_down[OF h p] d1 d2
  have "Fin 5 = Fin (of_int \<lfloor>((10::rat) / 2) / (1 / 2)\<rfloor> * (1 / 2))
      \<and> of_int \<lfloor>((10::rat) / 2) / (1 / 2)\<rfloor> * (1 / 2) * 2 \<le> (10::rat)"
    by auto
  with h p d1 d2 show ?thesis by blast
qed


text \<open>
  C1 as stated fails twice. With a balance of 1.7, a price of 0.1 and a step of 1 (as
  doubles) the quotient rounds up to 17, and 17 times the price is above the balance,
  both exactly and as a float product. With a balance of -1 the quantity is -1.
\<close>

theorem position_size_over_allocates:
  "float_of_str ''1.7'' = Inr (Fin (7656119366529843 / 4503599627370496))
   \<and> float_of_str ''0.1'' = Inr (Fin (3602879701896397 / 36028797018963968))
   \<and> position_size (Fin (7656119366529843 / 4503599627370496))
        (Fin (3602879701896397 / 36028797018963968)) (Fin 1) = Inr (Fin 17)
   \<and> (7656119366529843 / 4503599627370496 :: rat) < 17 * (3602879701896397 / 36028797018963968)
   \<and> float_mul (Fin 17) (Fin (3602879701896397 / 36028797018963968))
       = Fin (1914029841632461 / 1125899906842624)
   \<and> (7656119366529843 / 4503599627370496 :: rat) < 1914029841632461 / 1125899906842624
   \<and> position_size (Fin (- 1)) (Fin 1) (Fin 1) = Inr (Fin (- 1))"
proof -
  have 1: "float_of_str ''1.7'' = Inr (Fin (7656119366529843 / 4503599627370496))" by code_simp
  have 2: "float_of_str ''0.1'' = Inr (Fin (3602879701896397 / 36028797018963968))" by code_simp
  have 3: "position_size (Fin (7656119366529843 / 4503599627370496))
        (Fin (3602879701896397 / 36028797018963968)) (Fin 1) = Inr (Fin 17)" by code_simp
  have 4: "(7656119366529843 / 4503599627370496 :: rat) < 17 * (3602879701896397 / 36028797018963968)"
    by simp
  have 5: "float_mul (Fin 17) (Fin (3602879701896397 / 36028797018963968))
       = Fin (1914029841632461 / 1125899906842624)" by code_simp
  have 6: "(7656119366529843 / 4503599627370496 :: rat) < 1914029841632461 / 1125899906842624"
    by simp
  have 7: "position_size (Fin (- 1)) (Fin 1) (Fin 1) = Inr (Fin (- 1))" by code_simp
  show ?thesis using 1 2 3 4 5 6 7 by blast
qed

section \<open>Properties of the OTP endpoint and the login\<close>

lemma receive_otp_dict:
  assumes "map_of kvs ''otp'' = Some otp"
  shows "receive_otp (Inr (JDict kvs)) g =
     (OtpAccepted otp, [ALog INFO (OtpReceived otp), APrint (OtpReceived otp)],
      g\<lparr>otp_received := otp, login_event := True\<rparr>)"
proof -
  from assms have "(''otp'', otp) \<in> set kvs" by (rule map_of_SomeD)
  then have ne: "kvs \<noteq> []" and mem: "''otp'' \<in> fst ` set kvs" by force+
  show ?thesis using assms ne mem by (simp add: receive_otp_def)
qed

lemma act_post:
  "act (Post body) p =
     (fst (snd (receive_otp body (vars p))), p\<lparr>vars := snd (snd (receive_otp body (vars p)))\<rparr>)"
  by (simp add: act_def split: prod.splits)

lemma wake_terminal: "auth p \<noteq> AwaitingOtp \<Longrightarrow> act (Wake c) p = ([], p)"
  by (simp add: act_def)

lemma resumptions_wakes_terminal:
  "auth p \<noteq> AwaitingOtp \<Longrightarrow> resumptions (map Wake cs) p = 0"
  by (induction cs arbitrary: p) (simp_all add: resumes_def wake_terminal)

lemma act_wake_leaves_wait:
  "auth p = AwaitingOtp \<Longrightarrow> login_event (vars p) \<Longrightarrow>
     auth (snd (act (Wake c) p)) \<noteq> AwaitingOtp"
  by (simp add: act_def finished_def split: prod.splits)

lemma resumptions_wakes_once:
  assumes "auth p = AwaitingOtp" "login_event (vars p)"
  shows "resumptions (map Wake cs) p = (if cs = [] then 0 else 1)"
proof (cases cs)
  case Nil
  then show ?thesis by simp
next
  case (Cons c cs')
  have "resumptions (map Wake cs') (snd (act (Wake c) p)) = 0"
    by (rule resumptions_wakes_terminal) (rule act_wake_leaves_wait[OF assms])
  then show ?thesis using Cons assms by (simp add: resumes_def)
qed

lemma waiting_process_eq:
  "waiting_process = \<lparr>auth = AwaitingOtp, vars = initial_globals\<lparr>otp_request_sent := True\<rparr>\<rparr>"
  by (simp add: waiting_process_def act_def initial_process_def login_start_def
        request_code_def telegram_accepting_def initial_globals_def)

text \<open>
  C3, as amended. A request to \<open>/otp\<close> whose body is an object with an \<open>otp\<close> entry is
  accepted with status 200 in every state of the login, not only while it awaits the OTP:
  the endpoint checks the body and nothing else, stores the value and sets the event. When
  the login is waiting, one such value lets it resume, and it resumes once, however often
  it is woken afterwards.
\<close>

theorem otp_accepted_in_every_state:
  assumes "map_of kvs ''otp'' = Some otp"
  shows "fst (receive_otp (Inr (JDict kvs)) (vars p)) = OtpAccepted otp
       \<and> status_code (fst (receive_otp (Inr (JDict kvs)) (vars p))) = 200
       \<and> snd (act (Post (Inr (JDict kvs))) p)
           = p\<lparr>vars := (vars p)\<lparr>otp_received := otp, login_event := True\<rparr>\<rparr>
       \<and> (auth p = AwaitingOtp \<longrightarrow>
            resumptions (Post (Inr (JDict kvs)) # map Wake clients) p
              = (if clients = [] then 0 else 1))"
proof -
  note r = receive_otp_dict[OF assms]
  have a: "snd (act (Post (Inr (JDict kvs))) p)
             = p\<lparr>vars := (vars p)\<lparr>otp_received := otp, login_event := True\<rparr>\<rparr>"
    by (simp add: act_post r)
  have "auth p = AwaitingOtp \<longrightarrow>
          resumptions (Post (Inr (JDict kvs)) # map Wake clients) p
            = (if clients = [] then 0 else 1)"
  proof
    assume w: "auth p = AwaitingOtp"
    have "resumptions (map Wake clients)
            (p\<lparr>vars := (vars p)\<lparr>otp_received := otp, login_event := True\<rparr>\<rparr>)
          = (if clients = [] then 0 else 1)"
      by (rule resumptions_wakes_once) (simp_all add: w)
    then show "resumptions (Post (Inr (JDict kvs)) # map Wake clients) p
                 = (if clients = [] then 0 else 1)"
      by (simp add: a resumes_def)
  qed
  then show ?thesis using a by (simp add: r)
qed

theorem otp_accepted_in_every_state_witness:
  "map_of [(''otp'', JStr ''12345'')] ''otp'' = Some (JStr ''12345'')
   \<and> auth waiting_process = AwaitingOtp
   \<and> status_code (fst (receive_otp (otp_body ''12345'') (vars waiting_process))) = 200
   \<and> resumptions [Post (otp_body ''12345''), Wake telegram_accepting, Wake telegram_accepting]
        waiting_process = 1"
proof -
  have h: "map_of [(''otp'', JStr ''12345'')] ''otp'' = Some (JStr ''12345'')" by simp
  have w: "auth waiting_process = AwaitingOtp" by (simp add: waiting_process_eq)
  show ?thesis
    using h w otp_accepted_in_every_state[OF h, of waiting_process
                "[telegram_accepting, telegram_accepting]"]
    by (simp add: otp_body_def del: resumptions.simps)
qed

text \<open>
  C3 as stated fails: before the login has reached its wait (the state the process starts
  in, with the endpoint already serving), an OTP is accepted with status 200.
\<close>

theorem otp_accepted_before_waiting:
  "auth initial_process = Unauthenticated
   \<and> fst (receive_otp (otp_body ''12345'') (vars initial_process)) = OtpAccepted (JStr ''12345'')
   \<and> status_code (fst (receive_otp (otp_body ''12345'') (vars initial_process))) = 200
   \<and> login_event (vars (snd (act (Post (otp_body ''12345'')) initial_process)))"
  by (simp add: initial_process_def otp_body_def receive_otp_def act_def)

text \<open>
  C10. An empty OTP is accepted with status 200 and sets the event; the waiting login
  wakes, finds the pending OTP falsy, makes no sign-in request, reports that no OTP was
  received and returns \<open>False\<close>: the login has failed for good.
\<close>

theorem empty_otp_accepted_login_fails:
  assumes "map_of kvs ''otp'' = Some (JStr [])" and "auth p = AwaitingOtp"
  shows "status_code (fst (receive_otp (Inr (JDict kvs)) (vars p))) = 200
       \<and> login_event (vars (snd (act (Post (Inr (JDict kvs))) p)))
       \<and> run [Post (Inr (JDict kvs)), Wake client] p =
           ([ALog INFO (OtpReceived (JStr [])), APrint (OtpReceived (JStr [])),
             ALog ERROR OtpNotReceived, APrint OtpNotReceived],
            \<lparr>auth = PermanentlyFailed,
              vars = (vars p)\<lparr>otp_received := JStr [], login_event := True\<rparr>\<rparr>)"
proof -
  note r = receive_otp_dict[OF assms(1)]
  have a: "act (Post (Inr (JDict kvs))) p =
     ([ALog INFO (OtpReceived (JStr [])), APrint (OtpReceived (JStr []))],
      p\<lparr>vars := (vars p)\<lparr>otp_received := JStr [], login_event := True\<rparr>\<rparr>)"
    by (simp add: act_post r)
  have w: "act (Wake client)
             (p\<lparr>vars := (vars p)\<lparr>otp_received := JStr [], login_event := True\<rparr>\<rparr>) =
     ([ALog ERROR OtpNotReceived, APrint OtpNotReceived],
      \<lparr>auth = PermanentlyFailed,
        vars = (vars p)\<lparr>otp_received := JStr [], login_event := True\<rparr>\<rparr>)"
    using assms(2) by (simp add: act_def login_resume_def finished_def)
  show ?thesis by (simp add: r a w)
qed

theorem empty_otp_accepted_login_fails_witness:
  "map_of [(''otp'', JStr [])] ''otp'' = Some (JStr [])
   \<and> auth waiting_process = AwaitingOtp
   \<and> status_code (fst (receive_otp (otp_body []) (vars waiting_process))) = 200
   \<and> auth (snd (run [Post (otp_body []), Wake telegram_accepting] waiting_process))
       = PermanentlyFailed"
proof -
  have h: "map_of [(''otp'', JStr [])] ''otp'' = Some (JStr [])" by simp
  have w: "auth waiting_process = AwaitingOtp" by (simp add: waiting_process_eq)
  show ?thesis
    using h w empty_otp_accepted_login_fails[OF h w, of telegram_accepting]
    by (simp add: otp_body_def)
qed

lemma request_code_sent:
  "request_code client g = (evs, g', st) \<Longrightarrow>
     code_requests_sent evs \<le> (if otp_request_sent g then 0 else 1)
   \<and> (otp_request_sent g \<longrightarrow> code_requests evs = 0)
   \<and> (otp_request_sent g \<or> 0 < code_requests_sent evs \<longrightarrow> otp_request_sent g')"
  by (auto simp: request_code_def code_requests_sent_def code_requests_def split: if_splits sum.splits exn.splits)


lemma login_start_sent:
  assumes "login_start client g = (evs, g', st)"
  shows "code_requests_sent evs \<le> (if otp_request_sent g then 0 else 1)
   \<and> (otp_request_sent g \<longrightarrow> code_requests evs = 0)
   \<and> (otp_request_sent g \<or> 0 < code_requests_sent evs \<longrightarrow> otp_request_sent g')"
proof (cases "connect client")
  case (Inl e)
  with assms show ?thesis
    by (auto simp: login_start_def code_requests_sent_def code_requests_def)
next
  case (Inr u)
  show ?thesis
  proof (cases "is_user_authorized client")
    case (Inl e)
    with Inr assms show ?thesis
      by (auto simp: login_start_def code_requests_sent_def code_requests_def)
  next
    case b: (Inr b)
    show ?thesis
    proof (cases b)
      case True
      with Inr b assms show ?thesis
        by (auto simp: login_start_def code_requests_sent_def code_requests_def)
    next
      case False
      obtain evs' g2 st2 where rc: "request_code client g = (evs', g2, st2)"
        by (cases "request_code client g") auto
      from False Inr b assms rc have e: "evs = [ALog INFO Connecting, APrint Connecting, TCall Connect,
                      ALog INFO CheckingAuthorized, APrint CheckingAuthorized,
                      TCall IsUserAuthorized] @ evs'" and g: "g' = g2"
        by (auto simp: login_start_def)
      from request_code_sent[OF rc] show ?thesis
        by (simp add: e g code_requests_sent_def code_requests_def)
    qed
  qed
qed

lemma login_resume_flag:
  "login_resume client g = (evs, g', b) \<Longrightarrow>
     otp_request_sent g' = otp_request_sent g \<and> code_requests evs = 0 \<and> code_requests_sent evs = 0"
  by (auto simp: login_resume_def code_requests_def code_requests_sent_def
           split: if_splits sum.splits exn.splits)

lemma receive_otp_flag:
  "receive_otp body g = (reply, evs, g') \<Longrightarrow>
     otp_request_sent g' = otp_request_sent g \<and> code_requests evs = 0 \<and> code_requests_sent evs = 0"
  by (auto simp: receive_otp_def code_requests_def code_requests_sent_def
           split: if_splits sum.splits bool.splits)

lemma act_sent:
  assumes "act a p = (evs, p')"
  shows "code_requests_sent evs \<le> (if otp_request_sent (vars p) then 0 else 1)
   \<and> (otp_request_sent (vars p) \<longrightarrow> code_requests evs = 0)
   \<and> (otp_request_sent (vars p) \<or> 0 < code_requests_sent evs \<longrightarrow> otp_request_sent (vars p'))"
proof (cases a)
  case (Enter client)
  obtain evs1 g1 st1 where ls: "login_start client (vars p) = (evs1, g1, st1)"
    by (cases "login_start client (vars p)") auto
  show ?thesis
  proof (cases "auth p = AwaitingOtp")
    case True
    with Enter assms show ?thesis by (auto simp: act_def code_requests_sent_def code_requests_def)
  next
    case False
    with Enter assms ls have "evs = evs1 \<and> vars p' = g1"
      by (cases st1) (auto simp: act_def)
    with login_start_sent[OF ls] show ?thesis by simp
  qed
next
  case (Post body)
  obtain reply evs1 g1 where r: "receive_otp body (vars p) = (reply, evs1, g1)"
    by (cases "receive_otp body (vars p)") auto
  with Post assms have "evs = evs1 \<and> vars p' = g1" by (auto simp: act_def)
  with receive_otp_flag[OF r] show ?thesis by simp
next
  case (Wake client)
  obtain evs1 g1 b where r: "login_resume client (vars p) = (evs1, g1, b)"
    by (cases "login_resume client (vars p)") auto
  show ?thesis
  proof (cases "auth p = AwaitingOtp \<and> login_event (vars p)")
    case True
    with Wake assms r have "evs = evs1 \<and> vars p' = g1" by (auto simp: act_def)
    with login_resume_flag[OF r] show ?thesis by simp
  next
    case False
    with Wake assms show ?thesis by (auto simp: act_def code_requests_sent_def code_requests_def)
  qed
qed

lemma code_requests_append:
  "code_requests (xs @ ys) = code_requests xs + code_requests ys"
  "code_requests_sent (xs @ ys) = code_requests_sent xs + code_requests_sent ys"
  by (induction xs) (simp_all add: code_requests_def code_requests_sent_def)

lemma run_sent:
  "run as p = (evs, p') \<Longrightarrow>
     code_requests_sent evs \<le> (if otp_request_sent (vars p) then 0 else 1)
   \<and> (otp_request_sent (vars p) \<longrightarrow> code_requests evs = 0)
   \<and> (otp_request_sent (vars p) \<or> 0 < code_requests_sent evs \<longrightarrow> otp_request_sent (vars p'))"
proof (induction as arbitrary: p evs p')
  case Nil
  then show ?case by (auto simp: code_requests_sent_def code_requests_def)
next
  case (Cons a as)
  obtain evs1 p1 where a: "act a p = (evs1, p1)" by (cases "act a p") auto
  obtain evs2 p2 where r: "run as p1 = (evs2, p2)" by (cases "run as p1") auto
  from Cons.prems a r have e: "evs = evs1 @ evs2" and p: "p' = p2" by auto
  note A = act_sent[OF a] and R = Cons.IH[OF r]
  show ?case
  proof (cases "otp_request_sent (vars p)")
    case True
    with A R show ?thesis by (simp add: e p code_requests_append)
  next
    case False
    show ?thesis
    proof (cases "0 < code_requests_sent evs1")
      case True
      with A have "otp_request_sent (vars p1)" by simp
      with A R False show ?thesis by (simp add: e p code_requests_append)
    next
      case f: False
      with A R False show ?thesis by (auto simp: e p code_requests_append split: if_splits)
    qed
  qed
qed

lemma request_code_one_request: "code_requests (fst (request_code client g)) \<le> 1"
  by (simp add: request_code_def code_requests_def split: sum.splits exn.splits)

lemma login_start_one_request:
  "code_requests (fst (login_start client g)) \<le> 1"
proof -
  have "code_requests (fst (login_start client g)) = 0 \<or>
        code_requests (fst (login_start client g)) = code_requests (fst (request_code client g))"
    by (simp add: login_start_def code_requests_def Let_def split: sum.splits bool.splits prod.splits)
  with request_code_one_request[of client g] show ?thesis by auto
qed

lemma enter_one_request: "code_requests (fst (act (Enter client) p)) \<le> 1"
proof (cases "auth p = AwaitingOtp")
  case True
  then show ?thesis by (simp add: act_def code_requests_def)
next
  case False
  have "fst (act (Enter client) p) = fst (login_start client (vars p))"
    using False by (auto simp: act_def split: prod.splits login_status.splits)
  then show ?thesis using login_start_one_request[of client "vars p"] by simp
qed

text \<open>
  C7, as amended. In any course of events (calls and re-entries of \<open>telegram_login\<close>,
  OTP posts, wake-ups) at most one code request goes through, and once one has gone
  through no code request is made again: the flag is set after the successful send and
  never cleared. One call of \<open>telegram_login\<close> makes at most one code request. A request
  that failed sets no flag.
\<close>

theorem one_code_request_goes_through:
  assumes "run as initial_process = (evs, p)" and "run as' p = (evs', p')"
  shows "code_requests_sent (evs @ evs') \<le> 1
       \<and> (0 < code_requests_sent evs \<longrightarrow> otp_request_sent (vars p) \<and> code_requests evs' = 0)
       \<and> code_requests (fst (act (Enter client) q)) \<le> 1"
proof -
  note A = run_sent[OF assms(1)] and B = run_sent[OF assms(2)]
  have i: "\<not> otp_request_sent (vars initial_process)"
    by (simp add: initial_process_def initial_globals_def)
  have 1: "code_requests_sent (evs @ evs') \<le> 1"
  proof (cases "0 < code_requests_sent evs")
    case True
    with A have "otp_request_sent (vars p)" by simp
    with B have "code_requests_sent evs' = 0" by simp
    with A i show ?thesis by (simp add: code_requests_append)
  next
    case False
    with B show ?thesis by (auto simp: code_requests_append split: if_splits)
  qed
  have 2: "0 < code_requests_sent evs \<longrightarrow> otp_request_sent (vars p) \<and> code_requests evs' = 0"
    using A B by simp
  show ?thesis using 1 2 enter_one_request by blast
qed

theorem one_code_request_goes_through_witness:
  "run [Enter telegram_accepting] initial_process
     = (fst (act (Enter telegram_accepting) initial_process), waiting_process)
   \<and> 0 < code_requests_sent (fst (act (Enter telegram_accepting) initial_process))
   \<and> code_requests (fst (run [Post (otp_body ''1''), Wake telegram_flooded,
                               Enter telegram_accepting] waiting_process)) = 0"
proof -
  have a: "run [Enter telegram_accepting] initial_process
     = (fst (act (Enter telegram_accepting) initial_process), waiting_process)"
    by (simp add: waiting_process_def split: prod.splits)
  have b: "run [Post (otp_body ''1''), Wake telegram_flooded, Enter telegram_accepting]
             waiting_process
           = (fst (run [Post (otp_body ''1''), Wake telegram_flooded, Enter telegram_accepting]
                waiting_process),
              snd (run [Post (otp_body ''1''), Wake telegram_flooded, Enter telegram_accepting]
                waiting_process))"
    by simp
  have s: "0 < code_requests_sent (fst (act (Enter telegram_accepting) initial_process))"
    by (simp add: act_def initial_process_def login_start_def request_code_def
          telegram_accepting_def initial_globals_def code_requests_sent_def)
  show ?thesis
    using a s one_code_request_goes_through[OF a b, of telegram_accepting initial_process]
    by simp
qed

text \<open>
  C7 as stated fails under the re-entry it speaks of: when the first code request is
  refused, the flag stays unset, and a second call of \<open>telegram_login\<close> requests a code
  again.
\<close>

theorem second_code_request_after_refusal:
  "code_requests (fst (run [Enter telegram_flooded, Enter telegram_accepting] initial_process)) = 2"
  by (simp add: act_def initial_process_def login_start_def request_code_def finished_def
        telegram_accepting_def telegram_flooded_def initial_globals_def code_requests_def)


end
